theory Spec2Isabelle
  imports Main
begin

section \<open>JavaScript values and strings\<close>

text \<open>
  Values that travel as statement parameters and row cells. Numbers are the
  integers (fractions, NaN and the infinities do not occur in a cell here);
  a \<open>Date\<close> is its millisecond time stamp.
\<close>

datatype jsval = JUndefined | JNull | JBool bool | JNum int | JStr string | JDate int

text \<open>Truthiness, as \<open>if (v)\<close> and \<open>!v\<close> test it.\<close>

fun truthy :: "jsval \<Rightarrow> bool" where
  "truthy JUndefined = False"
| "truthy JNull = False"
| "truthy (JBool b) = b"
| "truthy (JNum n) = (n \<noteq> 0)"
| "truthy (JStr s) = (s \<noteq> [])"
| "truthy (JDate t) = True"

text \<open>A plain object: its own properties in insertion order.\<close>

type_synonym obj = "(string \<times> jsval) list"

text \<open>
  \<open>o[k]\<close> for a name \<open>k\<close> that no object inherits (\<open>count\<close>, \<open>insertId\<close>,
  \<open>affectedRows\<close>, \<open>changedRows\<close>, \<open>length\<close> of a non-array): a missing property reads
  as \<open>undefined\<close>.
\<close>

definition obj_get :: "obj \<Rightarrow> string \<Rightarrow> jsval" where
  "obj_get ob k = (case map_of ob k of None \<Rightarrow> JUndefined | Some v \<Rightarrow> v)"

text \<open>The members every plain object inherits from \<open>Object.prototype\<close>.\<close>

definition object_prototype_names :: "string list" where
  "object_prototype_names =
     [''constructor'', ''__defineGetter__'', ''__defineSetter__'', ''hasOwnProperty'',
      ''__lookupGetter__'', ''__lookupSetter__'', ''isPrototypeOf'', ''propertyIsEnumerable'',
      ''toString'', ''valueOf'', ''__proto__'', ''toLocaleString'']"

text \<open>
  \<open>o[k]\<close> as a condition, for any name \<open>k\<close>: the truthiness of the own property when
  there is one; otherwise an inherited member is read, which is a function or an
  object and so truthy; otherwise \<open>undefined\<close>, which is not.
\<close>

definition truthy_prop :: "obj \<Rightarrow> string \<Rightarrow> bool" where
  "truthy_prop ob k =
     (case map_of ob k of Some v \<Rightarrow> truthy v | None \<Rightarrow> k \<in> set object_prototype_names)"

text \<open>\<open>o[k] = v\<close>: an existing property keeps its place, a new one goes last.\<close>

fun obj_set :: "obj \<Rightarrow> string \<Rightarrow> jsval \<Rightarrow> obj" where
  "obj_set [] k v = [(k, v)]"
| "obj_set ((k', v') # ob) k v = (if k' = k then (k, v) # ob else (k', v') # obj_set ob k v)"

text \<open>\<open>Array.prototype.join\<close> on an array of strings.\<close>

fun js_join :: "string \<Rightarrow> string list \<Rightarrow> string" where
  "js_join sep [] = []"
| "js_join sep [x] = x"
| "js_join sep (x # y # ys) = x @ sep @ js_join sep (y # ys)"

text \<open>Decimal rendering of an integer, as a template literal prints it.\<close>

definition digit_char :: "nat \<Rightarrow> char" where
  "digit_char d = char_of (48 + d)"

fun nat_to_string :: "nat \<Rightarrow> string" where
  "nat_to_string n = (if n < 10 then [digit_char n] else nat_to_string (n div 10) @ [digit_char (n mod 10)])"

declare nat_to_string.simps [simp del]

definition num_to_string :: "int \<Rightarrow> string" where
  "num_to_string i = (if i < 0 then CHR ''-'' # nat_to_string (nat (- i)) else nat_to_string (nat i))"

text \<open>\<open>String.prototype.toUpperCase\<close> on ASCII text (other bytes are left alone).\<close>

definition upper_char :: "char \<Rightarrow> char" where
  "upper_char c = (let n = (of_char c :: nat) in if 97 \<le> n \<and> n \<le> 122 then char_of (n - 32) else c)"

definition toUpperCase :: "string \<Rightarrow> string" where
  "toUpperCase s = map upper_char s"

section \<open>QueryBuilder (src/querybuilder.mjs)\<close>

record builder =
  b_table :: string
  b_columns :: "string list"
  b_where :: "string list"
  b_whereParams :: "jsval list"
  b_joins :: "string list"
  b_orderBy :: "string list"
  b_groupBy :: "string list"
  b_having :: string
  b_limit :: "int option"
  b_offset :: "int option"

text \<open>\<open>reset()\<close> overwrites every field; \<open>null\<close> is \<open>None\<close>.\<close>

definition reset :: builder where
  "reset = \<lparr> b_table = [], b_columns = [''*''], b_where = [], b_whereParams = [],
             b_joins = [], b_orderBy = [], b_groupBy = [], b_having = [],
             b_limit = None, b_offset = None \<rparr>"

definition table :: "string \<Rightarrow> builder \<Rightarrow> builder" where
  "table t b = b\<lparr> b_table := t \<rparr>"

definition select :: "string list \<Rightarrow> builder \<Rightarrow> builder" where
  "select cols b = b\<lparr> b_columns := (if length cols > 0 then cols else [''*'']) \<rparr>"

text \<open>
  \<open>where(column, value)\<close> and \<open>where(column, operator, value)\<close>: the two call
  shapes that \<open>arguments.length === 2\<close> tells apart.
\<close>

datatype where_args = Args2 jsval | Args3 string jsval

fun operator_of :: "where_args \<Rightarrow> string" where
  "operator_of (Args2 v) = ''=''"
| "operator_of (Args3 operator v) = operator"

fun value_of :: "where_args \<Rightarrow> jsval" where
  "value_of (Args2 v) = v"
| "value_of (Args3 operator v) = v"

definition where_b :: "string \<Rightarrow> where_args \<Rightarrow> builder \<Rightarrow> builder" where
  "where_b column args b =
     b\<lparr> b_where := b_where b @ [column @ '' '' @ operator_of args @ '' ?''],
        b_whereParams := b_whereParams b @ [value_of args] \<rparr>"

definition placeholders :: "'a list \<Rightarrow> string" where
  "placeholders vals = js_join '', '' (map (\<lambda>_. ''?'') vals)"

definition whereIn :: "string \<Rightarrow> jsval list \<Rightarrow> builder \<Rightarrow> builder" where
  "whereIn column vals b =
     b\<lparr> b_where := b_where b @ [column @ '' IN ('' @ placeholders vals @ '')''],
        b_whereParams := b_whereParams b @ vals \<rparr>"

definition whereNotIn :: "string \<Rightarrow> jsval list \<Rightarrow> builder \<Rightarrow> builder" where
  "whereNotIn column vals b =
     b\<lparr> b_where := b_where b @ [column @ '' NOT IN ('' @ placeholders vals @ '')''],
        b_whereParams := b_whereParams b @ vals \<rparr>"

definition whereBetween :: "string \<Rightarrow> jsval \<Rightarrow> jsval \<Rightarrow> builder \<Rightarrow> builder" where
  "whereBetween column lo hi b =
     b\<lparr> b_where := b_where b @ [column @ '' BETWEEN ? AND ?''],
        b_whereParams := b_whereParams b @ [lo, hi] \<rparr>"

definition whereNotBetween :: "string \<Rightarrow> jsval \<Rightarrow> jsval \<Rightarrow> builder \<Rightarrow> builder" where
  "whereNotBetween column lo hi b =
     b\<lparr> b_where := b_where b @ [column @ '' NOT BETWEEN ? AND ?''],
        b_whereParams := b_whereParams b @ [lo, hi] \<rparr>"

definition whereNull :: "string \<Rightarrow> builder \<Rightarrow> builder" where
  "whereNull column b = b\<lparr> b_where := b_where b @ [column @ '' IS NULL''] \<rparr>"

definition whereNotNull :: "string \<Rightarrow> builder \<Rightarrow> builder" where
  "whereNotNull column b = b\<lparr> b_where := b_where b @ [column @ '' IS NOT NULL''] \<rparr>"

definition whereLike :: "string \<Rightarrow> jsval \<Rightarrow> builder \<Rightarrow> builder" where
  "whereLike column pattern b =
     b\<lparr> b_where := b_where b @ [column @ '' LIKE ?''],
        b_whereParams := b_whereParams b @ [pattern] \<rparr>"

definition whereNotLike :: "string \<Rightarrow> jsval \<Rightarrow> builder \<Rightarrow> builder" where
  "whereNotLike column pattern b =
     b\<lparr> b_where := b_where b @ [column @ '' NOT LIKE ?''],
        b_whereParams := b_whereParams b @ [pattern] \<rparr>"

definition orWhere :: "string \<Rightarrow> where_args \<Rightarrow> builder \<Rightarrow> builder" where
  "orWhere column args b =
     (let prefix = (if length (b_where b) > 0 then ''OR'' else '''')
      in b\<lparr> b_where := b_where b @ [prefix @ '' '' @ column @ '' '' @ operator_of args @ '' ?''],
            b_whereParams := b_whereParams b @ [value_of args] \<rparr>)"

definition whereRaw :: "string \<Rightarrow> jsval list \<Rightarrow> builder \<Rightarrow> builder" where
  "whereRaw condition ps b =
     b\<lparr> b_where := b_where b @ [condition], b_whereParams := b_whereParams b @ ps \<rparr>"

definition join_b :: "string \<Rightarrow> string \<Rightarrow> string \<Rightarrow> string \<Rightarrow> builder \<Rightarrow> builder" where
  "join_b t column1 operator column2 b =
     b\<lparr> b_joins := b_joins b @
        [''INNER JOIN '' @ t @ '' ON '' @ column1 @ '' '' @ operator @ '' '' @ column2] \<rparr>"

definition leftJoin :: "string \<Rightarrow> string \<Rightarrow> string \<Rightarrow> string \<Rightarrow> builder \<Rightarrow> builder" where
  "leftJoin t column1 operator column2 b =
     b\<lparr> b_joins := b_joins b @
        [''LEFT JOIN '' @ t @ '' ON '' @ column1 @ '' '' @ operator @ '' '' @ column2] \<rparr>"

definition rightJoin :: "string \<Rightarrow> string \<Rightarrow> string \<Rightarrow> string \<Rightarrow> builder \<Rightarrow> builder" where
  "rightJoin t column1 operator column2 b =
     b\<lparr> b_joins := b_joins b @
        [''RIGHT JOIN '' @ t @ '' ON '' @ column1 @ '' '' @ operator @ '' '' @ column2] \<rparr>"

definition crossJoin :: "string \<Rightarrow> builder \<Rightarrow> builder" where
  "crossJoin t b = b\<lparr> b_joins := b_joins b @ [''CROSS JOIN '' @ t] \<rparr>"

text \<open>\<open>orderBy(column, direction = 'ASC')\<close>: \<open>None\<close> is the omitted argument.\<close>

definition orderBy :: "string \<Rightarrow> string option \<Rightarrow> builder \<Rightarrow> builder" where
  "orderBy column direction b =
     (let d = (case direction of None \<Rightarrow> ''ASC'' | Some x \<Rightarrow> x)
      in b\<lparr> b_orderBy := b_orderBy b @ [column @ '' '' @ toUpperCase d] \<rparr>)"

definition orderByRaw :: "string \<Rightarrow> builder \<Rightarrow> builder" where
  "orderByRaw rawOrder b = b\<lparr> b_orderBy := b_orderBy b @ [rawOrder] \<rparr>"

definition groupBy :: "string list \<Rightarrow> builder \<Rightarrow> builder" where
  "groupBy cols b = b\<lparr> b_groupBy := b_groupBy b @ cols \<rparr>"

definition having :: "string \<Rightarrow> builder \<Rightarrow> builder" where
  "having condition b = b\<lparr> b_having := condition \<rparr>"

definition limit :: "int \<Rightarrow> builder \<Rightarrow> builder" where
  "limit n b = b\<lparr> b_limit := Some n \<rparr>"

definition offset :: "int \<Rightarrow> builder \<Rightarrow> builder" where
  "offset n b = b\<lparr> b_offset := Some n \<rparr>"

text \<open>\<open>toSQL()\<close>: the clauses are appended in this fixed order.\<close>

record statement =
  sql :: string
  params :: "jsval list"

definition toSQL :: "builder \<Rightarrow> statement" where
  "toSQL b =
     (let s0 = ''SELECT '' @ js_join '', '' (b_columns b) @ '' FROM '' @ b_table b;
          s1 = (if length (b_joins b) > 0 then s0 @ '' '' @ js_join '' '' (b_joins b) else s0);
          s2 = (if length (b_where b) > 0 then s1 @ '' WHERE '' @ js_join '' AND '' (b_where b) else s1);
          s3 = (if length (b_groupBy b) > 0 then s2 @ '' GROUP BY '' @ js_join '', '' (b_groupBy b) else s2);
          s4 = (if b_having b \<noteq> [] then s3 @ '' HAVING '' @ b_having b else s3);
          s5 = (if length (b_orderBy b) > 0 then s4 @ '' ORDER BY '' @ js_join '', '' (b_orderBy b) else s4);
          s6 = (case b_limit b of None \<Rightarrow> s5 | Some n \<Rightarrow> s5 @ '' LIMIT '' @ num_to_string n);
          s7 = (case b_offset b of None \<Rightarrow> s6 | Some n \<Rightarrow> s6 @ '' OFFSET '' @ num_to_string n)
      in \<lparr> sql = s7, params = b_whereParams b \<rparr>)"

definition clone :: "builder \<Rightarrow> builder" where
  "clone b = reset\<lparr> b_table := b_table b, b_columns := b_columns b, b_where := b_where b,
        b_whereParams := b_whereParams b, b_joins := b_joins b, b_orderBy := b_orderBy b,
        b_groupBy := b_groupBy b, b_having := b_having b, b_limit := b_limit b,
        b_offset := b_offset b \<rparr>"


subsection \<open>Terminal operations\<close>

text \<open>
  A thrown JavaScript error with its \<open>message\<close>. What a statement resolves to:
  an array of rows, or the driver's header object for a statement that returns
  no rows.
\<close>

datatype error = Error string | TypeError string

fun message :: "error \<Rightarrow> string" where
  "message (Error m) = m"
| "message (TypeError m) = m"

datatype result = Rows "obj list" | Header obj

text \<open>
  The builder calls \<open>this.db.query(sql, params)\<close>. The database handle is the
  parameter \<open>q\<close>, a function on the state \<open>'s\<close> of everything behind it; a
  rejected promise is \<open>Inl\<close>. Each operation returns its outcome, the builder
  as it leaves it, and the state behind \<open>q\<close>.
\<close>

type_synonym 's db = "string \<Rightarrow> jsval list \<Rightarrow> 's \<Rightarrow> (error + result) \<times> 's"

definition get :: "'s db \<Rightarrow> builder \<Rightarrow> 's \<Rightarrow> (error + result) \<times> builder \<times> 's" where
  "get q b s =
     (case q (sql (toSQL b)) (params (toSQL b)) s of
        (Inl e, s') \<Rightarrow> (Inl e, b, s')
      | (Inr r, s') \<Rightarrow> (Inr r, reset, s'))"

text \<open>\<open>result.length > 0 ? result[0] : null\<close>; a header object has no \<open>length\<close>.\<close>

fun first_row :: "result \<Rightarrow> obj option" where
  "first_row (Rows rs) = (if length rs > 0 then Some (rs ! 0) else None)"
| "first_row (Header h) = None"

definition first :: "'s db \<Rightarrow> builder \<Rightarrow> 's \<Rightarrow> (error + obj option) \<times> builder \<times> 's" where
  "first q b s =
     (case get q (limit 1 b) s of
        (Inl e, b', s') \<Rightarrow> (Inl e, b', s')
      | (Inr r, b', s') \<Rightarrow> (Inr (first_row r), b', s'))"

definition count :: "'s db \<Rightarrow> builder \<Rightarrow> 's \<Rightarrow> (error + jsval) \<times> builder \<times> 's" where
  "count q b s =
     (let originalColumns = b_columns b
      in case first q (b\<lparr> b_columns := [''COUNT(*) as count''] \<rparr>) s of
           (Inl e, b', s') \<Rightarrow> (Inl e, b', s')
         | (Inr r, b', s') \<Rightarrow>
             (Inr (case r of Some row \<Rightarrow> obj_get row ''count'' | None \<Rightarrow> JNum 0),
              b'\<lparr> b_columns := originalColumns \<rparr>, s'))"

text \<open>
  Numbers as \<open>Math.ceil(totalCount / perPage)\<close> can produce them. \<open>ToNumber\<close> of
  a string is the platform's and comes in as the parameter \<open>str_num\<close>.
\<close>

datatype jsnum = Num int | PosInfinity | NegInfinity | NaN

fun to_number :: "(string \<Rightarrow> jsnum) \<Rightarrow> jsval \<Rightarrow> jsnum" where
  "to_number str_num JUndefined = NaN"
| "to_number str_num JNull = Num 0"
| "to_number str_num (JBool b) = Num (if b then 1 else 0)"
| "to_number str_num (JNum n) = Num n"
| "to_number str_num (JStr s) = str_num s"
| "to_number str_num (JDate t) = Num t"

text \<open>\<open>Math.ceil(a / b)\<close> for an integer divisor \<open>b\<close>.\<close>

fun ceil_div :: "jsnum \<Rightarrow> int \<Rightarrow> jsnum" where
  "ceil_div (Num a) b =
     (if b \<noteq> 0 then Num (- ((- a) div b))
      else if a > 0 then PosInfinity else if a < 0 then NegInfinity else NaN)"
| "ceil_div PosInfinity b = (if b < 0 then NegInfinity else PosInfinity)"
| "ceil_div NegInfinity b = (if b < 0 then PosInfinity else NegInfinity)"
| "ceil_div NaN b = NaN"

text \<open>\<open>page < totalPages\<close>.\<close>

fun int_less :: "int \<Rightarrow> jsnum \<Rightarrow> bool" where
  "int_less i (Num n) = (i < n)"
| "int_less i PosInfinity = True"
| "int_less i NegInfinity = False"
| "int_less i NaN = False"

record pagination =
  currentPage :: int
  perPage :: int
  totalItems :: jsval
  totalPages :: jsnum
  hasNextPage :: bool
  hasPrevPage :: bool

record page_result =
  data :: result
  pagination :: pagination

text \<open>\<open>paginate(page = 1, perPage = 15)\<close>: \<open>None\<close> is an omitted argument.\<close>

definition paginate ::
  "(string \<Rightarrow> jsnum) \<Rightarrow> 's db \<Rightarrow> int option \<Rightarrow> int option \<Rightarrow> builder \<Rightarrow> 's
     \<Rightarrow> (error + page_result) \<times> builder \<times> 's" where
  "paginate str_num q page_arg perPage_arg b s =
     (let page = (case page_arg of None \<Rightarrow> 1 | Some p \<Rightarrow> p);
          per = (case perPage_arg of None \<Rightarrow> 15 | Some p \<Rightarrow> p);
          off = (page - 1) * per
      in case count q b s of
           (Inl e, b1, s1) \<Rightarrow> (Inl e, b1, s1)
         | (Inr totalCount, b1, s1) \<Rightarrow>
             (let pages = ceil_div (to_number str_num totalCount) per
              in case get q (offset off (limit per b1)) s1 of
                   (Inl e, b2, s2) \<Rightarrow> (Inl e, b2, s2)
                 | (Inr d, b2, s2) \<Rightarrow>
                     (Inr \<lparr> data = d,
                            pagination = \<lparr> currentPage = page, perPage = per,
                              totalItems = totalCount, totalPages = pages,
                              hasNextPage = int_less page pages,
                              hasPrevPage = (page > 1) \<rparr> \<rparr>,
                      b2, s2)))"

text \<open>
  A database handle for running the builder on examples: it answers every
  statement through \<open>answer\<close> and keeps the statements it was sent, in order.
\<close>

definition recording_db :: "(string \<Rightarrow> jsval list \<Rightarrow> error + result) \<Rightarrow> (statement list) db" where
  "recording_db answer text ps log = (answer text ps, log @ [\<lparr> sql = text, params = ps \<rparr>])"

subsection \<open>Sequences of builder calls\<close>

datatype call =
    Table string
  | Select "string list"
  | Where string where_args
  | OrWhere string where_args
  | WhereIn string "jsval list"
  | WhereNotIn string "jsval list"
  | WhereBetween string jsval jsval
  | WhereNotBetween string jsval jsval
  | WhereNull string
  | WhereNotNull string
  | WhereLike string jsval
  | WhereNotLike string jsval
  | Join string string string string
  | LeftJoin string string string string
  | RightJoin string string string string
  | CrossJoin string
  | OrderBy string "string option"
  | GroupBy "string list"
  | Limit int
  | Offset int

fun apply_call :: "call \<Rightarrow> builder \<Rightarrow> builder" where
  "apply_call (Table t) = table t"
| "apply_call (Select cols) = select cols"
| "apply_call (Where c a) = where_b c a"
| "apply_call (OrWhere c a) = orWhere c a"
| "apply_call (WhereIn c vs) = whereIn c vs"
| "apply_call (WhereNotIn c vs) = whereNotIn c vs"
| "apply_call (WhereBetween c lo hi) = whereBetween c lo hi"
| "apply_call (WhereNotBetween c lo hi) = whereNotBetween c lo hi"
| "apply_call (WhereNull c) = whereNull c"
| "apply_call (WhereNotNull c) = whereNotNull c"
| "apply_call (WhereLike c p) = whereLike c p"
| "apply_call (WhereNotLike c p) = whereNotLike c p"
| "apply_call (Join t c1 operator c2) = join_b t c1 operator c2"
| "apply_call (LeftJoin t c1 operator c2) = leftJoin t c1 operator c2"
| "apply_call (RightJoin t c1 operator c2) = rightJoin t c1 operator c2"
| "apply_call (CrossJoin t) = crossJoin t"
| "apply_call (OrderBy c d) = orderBy c d"
| "apply_call (GroupBy cols) = groupBy cols"
| "apply_call (Limit n) = limit n"
| "apply_call (Offset n) = offset n"

definition run :: "call list \<Rightarrow> builder \<Rightarrow> builder" where
  "run calls b = foldl (\<lambda>acc c. apply_call c acc) b calls"




text \<open>The number of \<open>?\<close> characters of a statement text.\<close>

definition placeholder_count :: "string \<Rightarrow> nat" where
  "placeholder_count text = count_list text CHR ''?''"


text \<open>The \<open>?\<close> characters of a list of fragments.\<close>

definition qsum :: "string list \<Rightarrow> nat" where
  "qsum xs = sum_list (map placeholder_count xs)"


text \<open>
  Placeholder order. The database client gives each \<open>?\<close> of the text, from left
  to right, the next parameter; \<open>fill\<close> writes the parameters into the text that
  way (a \<open>?\<close> for which no parameter is left stays as it is).
\<close>

fun fill :: "string \<Rightarrow> string list \<Rightarrow> string" where
  "fill [] vs = []"
| "fill (c # s) vs =
     (if c = CHR ''?'' then (case vs of [] \<Rightarrow> c # fill s [] | v # vs' \<Rightarrow> v @ fill s vs')
      else c # fill s vs)"

text \<open>
  The same builder call with its values written into the text instead of bound:
  the fragments this call appends are filled with the values this call pushes,
  written out by \<open>render\<close>, and the parameter list stays empty.
\<close>

definition inline_call :: "(jsval \<Rightarrow> string) \<Rightarrow> call \<Rightarrow> builder \<Rightarrow> builder" where
  "inline_call render c b =
     (let b' = apply_call c (b\<lparr> b_whereParams := [] \<rparr>)
      in b'\<lparr> b_where := b_where b @ map (\<lambda>fragment. fill fragment (map render (b_whereParams b')))
                                    (drop (length (b_where b)) (b_where b')),
            b_whereParams := [] \<rparr>)"

definition run_inline :: "(jsval \<Rightarrow> string) \<Rightarrow> call list \<Rightarrow> builder \<Rightarrow> builder" where
  "run_inline render calls b = foldl (\<lambda>acc c. inline_call render c acc) b calls"

text \<open>
  An example database of products: 25 rows are in the category asked for. It
  answers the count statement, and the statement for the second page of ten of
  those rows; any other text is rejected as the server rejects a malformed
  statement.
\<close>

definition products_answer :: "string \<Rightarrow> jsval list \<Rightarrow> error + result" where
  "products_answer text ps =
     (if text = ''SELECT COUNT(*) as count FROM products WHERE category = ? LIMIT 1''
         \<and> ps = [JStr ''electronics'']
      then Inr (Rows [[(''count'', JNum 25)]])
      else if text = ''SELECT * FROM products WHERE category = ? LIMIT 10 OFFSET 10''
         \<and> ps = [JStr ''electronics'']
      then Inr (Rows (map (\<lambda>i. [(''id'', JNum (int i))]) [11 ..< 21]))
      else Inl (Error ''You have an error in your SQL syntax''))"

definition products_builder :: builder where
  "products_builder = where_b ''category'' (Args2 (JStr ''electronics'')) (table ''products'' reset)"

section \<open>MySQLHelper (src/unnamed/part_001)\<close>

subsection \<open>State, effects and the outside world\<close>

text \<open>
  An asynchronous method is a function on the state that returns its outcome,
  \<open>Inl\<close> for a rejected promise or a thrown error, and the state it leaves. The
  methods run one after the other: no two of them interleave here.
\<close>

type_synonym ('a, 's) prog = "'s \<Rightarrow> (error + 'a) \<times> 's"

definition ret :: "'a \<Rightarrow> ('a, 's) prog" where
  "ret x s = (Inr x, s)"

definition throw :: "error \<Rightarrow> ('a, 's) prog" where
  "throw e s = (Inl e, s)"

definition andThen :: "('a, 's) prog \<Rightarrow> ('a \<Rightarrow> ('b, 's) prog) \<Rightarrow> ('b, 's) prog" where
  "andThen m f s = (case m s of (Inl e, s') \<Rightarrow> (Inl e, s') | (Inr x, s') \<Rightarrow> f x s')"

text \<open>\<open>try { m } catch (error) { handler }\<close>.\<close>

definition try_catch :: "('a, 's) prog \<Rightarrow> (error \<Rightarrow> ('a, 's) prog) \<Rightarrow> ('a, 's) prog" where
  "try_catch m handler s = (case m s of (Inl e, s') \<Rightarrow> handler e s' | (Inr x, s') \<Rightarrow> (Inr x, s'))"

text \<open>
  \<open>try { m } finally { fin }\<close>: \<open>fin\<close> runs however \<open>m\<close> ends, and the outcome of
  \<open>m\<close> stands unless \<open>fin\<close> throws.
\<close>

definition try_finally :: "('a, 's) prog \<Rightarrow> (unit, 's) prog \<Rightarrow> ('a, 's) prog" where
  "try_finally m fin s =
     (case m s of (r, s') \<Rightarrow>
        (case fin s' of (Inl e, s'') \<Rightarrow> (Inl e, s'') | (Inr u, s'') \<Rightarrow> (r, s'')))"

definition gets :: "('s \<Rightarrow> 'a) \<Rightarrow> ('a, 's) prog" where
  "gets f s = (Inr (f s), s)"

definition modify :: "('s \<Rightarrow> 's) \<Rightarrow> (unit, 's) prog" where
  "modify f s = (Inr (), f s)"

definition when_p :: "bool \<Rightarrow> (unit, 's) prog \<Rightarrow> (unit, 's) prog" where
  "when_p c m = (if c then m else ret ())"

text \<open>
  The signals the helper emits through \<open>this.emit\<close>, in order. The listeners are
  the caller's; the signals a driver-side listener adds on its own (a pool's
  \<open>connection\<close> event) are not part of this trace.
\<close>

datatype event =
    PoolCreated
  | Connected int
  | ConnectionRetry int string
  | CacheHit string "jsval list"
  | CacheCleared
  | QueryExecuted string "jsval list" int jsval
  | QueryError string "jsval list" string
  | BatchProgress int jsnum int
  | TransactionStarted int
  | TransactionCommitted int
  | TransactionRolledBack int string

text \<open>A connection handle, with its \<open>threadId\<close>.\<close>

datatype conn = Conn int

fun threadId :: "conn \<Rightarrow> int" where
  "threadId (Conn n) = n"

text \<open>
  What lies outside the helper: the objects of the JavaScript heap, which callers
  and callbacks hold by reference (a reference is an index), and the state \<open>'x\<close>
  of the database client, the server and the clock.
\<close>

record 'x world =
  heap :: "obj list"
  ext :: 'x

text \<open>What a hook callback receives.\<close>

datatype hookdata =
    QueryData string "jsval list" int
  | AfterQueryData string "jsval list" int result int
  | ErrorData string "jsval list" int error
  | InsertData string nat
  | AfterInsertData string nat jsval jsval
  | UpdateData string nat nat
  | AfterUpdateData string nat nat jsval jsval

text \<open>
  A hook callback is the caller's code: it may change the world, objects on the
  heap included, and its promise resolves (\<open>None\<close>) or rejects. Callbacks that
  call back into the helper are outside this model.
\<close>

type_synonym 'x hook = "hookdata \<Rightarrow> 'x world \<Rightarrow> error option \<times> 'x world"

record 'x hooks =
  beforeQuery :: "'x hook list"
  afterQuery :: "'x hook list"
  onError :: "'x hook list"
  beforeInsert :: "'x hook list"
  afterInsert :: "'x hook list"
  beforeUpdate :: "'x hook list"
  afterUpdate :: "'x hook list"

record cache_entry =
  entry_data :: result
  expiry :: int

record log_entry =
  log_sql :: string
  log_params :: "jsval list"
  log_executionTime :: int
  log_timestamp :: int

record 'x helper =
  pool :: bool
  connection :: "conn option"
  hooks :: "'x hooks"
  cache :: "string \<Rightarrow> cache_entry option"
  cacheEnabled :: bool
  cacheTTL :: int
  retryAttempts :: int
  retryDelay :: int
  queryLog :: "log_entry list"
  logQueries :: bool
  timestamps :: bool
  createdAtColumn :: string
  updatedAtColumn :: string

record 'x state =
  self :: "'x helper"
  emitted :: "event list"
  world :: "'x world"

text \<open>
  The platform and the database client, which the repository does not hold:
  \<open>Date.now\<close>, \<open>JSON.stringify\<close> on a parameter array, \<open>setTimeout\<close>, and the
  driver's pool and connection operations.
\<close>

record 'x runtime =
  date_now :: "'x \<Rightarrow> int"
  json_stringify :: "jsval list \<Rightarrow> string"
  sleep :: "int \<Rightarrow> 'x \<Rightarrow> 'x"
  createConnection :: "'x \<Rightarrow> (error + conn) \<times> 'x"
  pool_getConnection :: "'x \<Rightarrow> (error + conn) \<times> 'x"
  pool_execute :: "string \<Rightarrow> jsval list \<Rightarrow> 'x \<Rightarrow> (error + result) \<times> 'x"
  conn_execute :: "conn \<Rightarrow> string \<Rightarrow> jsval list \<Rightarrow> 'x \<Rightarrow> (error + result) \<times> 'x"
  conn_beginTransaction :: "conn \<Rightarrow> 'x \<Rightarrow> error option \<times> 'x"
  conn_commit :: "conn \<Rightarrow> 'x \<Rightarrow> error option \<times> 'x"
  conn_rollback :: "conn \<Rightarrow> 'x \<Rightarrow> error option \<times> 'x"
  conn_release :: "conn \<Rightarrow> 'x \<Rightarrow> 'x"

text \<open>Running a piece of the outside world inside a method.\<close>

definition driver :: "('x \<Rightarrow> (error + 'a) \<times> 'x) \<Rightarrow> ('a, 'x state) prog" where
  "driver f s =
     (case f (ext (world s)) of (r, x') \<Rightarrow> (r, s\<lparr> world := (world s)\<lparr> ext := x' \<rparr> \<rparr>))"

definition driver_unit :: "('x \<Rightarrow> error option \<times> 'x) \<Rightarrow> (unit, 'x state) prog" where
  "driver_unit f s =
     (case f (ext (world s)) of
        (None, x') \<Rightarrow> (Inr (), s\<lparr> world := (world s)\<lparr> ext := x' \<rparr> \<rparr>)
      | (Some e, x') \<Rightarrow> (Inl e, s\<lparr> world := (world s)\<lparr> ext := x' \<rparr> \<rparr>))"

definition callback :: "('x world \<Rightarrow> error option \<times> 'x world) \<Rightarrow> (unit, 'x state) prog" where
  "callback f s =
     (case f (world s) of
        (None, w') \<Rightarrow> (Inr (), s\<lparr> world := w' \<rparr>)
      | (Some e, w') \<Rightarrow> (Inl e, s\<lparr> world := w' \<rparr>))"

definition now :: "'x runtime \<Rightarrow> (int, 'x state) prog" where
  "now rt = gets (\<lambda>s. date_now rt (ext (world s)))"

definition emit :: "event \<Rightarrow> (unit, 'x state) prog" where
  "emit ev = modify (\<lambda>s. s\<lparr> emitted := emitted s @ [ev] \<rparr>)"

subsection \<open>Constructor\<close>

text \<open>The options of the constructor that the modelled methods read.\<close>

record config =
  cfg_cache :: bool
  cfg_cacheTTL :: "int option"
  cfg_retryAttempts :: "int option"
  cfg_retryDelay :: "int option"
  cfg_logQueries :: bool
  cfg_timestamps :: "bool option"
  cfg_createdAtColumn :: "string option"
  cfg_updatedAtColumn :: "string option"

text \<open>\<open>v || d\<close> on an optional number and on an optional string.\<close>

fun num_or :: "int option \<Rightarrow> int \<Rightarrow> int" where
  "num_or None d = d"
| "num_or (Some n) d = (if n = 0 then d else n)"

fun str_or :: "string option \<Rightarrow> string \<Rightarrow> string" where
  "str_or None d = d"
| "str_or (Some s) d = (if s = [] then d else s)"

definition new_helper :: "config \<Rightarrow> 'x helper" where
  "new_helper c =
     \<lparr> pool = False, connection = None,
       hooks = \<lparr> beforeQuery = [], afterQuery = [], onError = [], beforeInsert = [],
                 afterInsert = [], beforeUpdate = [], afterUpdate = [] \<rparr>,
       cache = (\<lambda>k. None),
       cacheEnabled = cfg_cache c,
       cacheTTL = num_or (cfg_cacheTTL c) 300000,
       retryAttempts = num_or (cfg_retryAttempts c) 3,
       retryDelay = num_or (cfg_retryDelay c) 1000,
       queryLog = [],
       logQueries = cfg_logQueries c,
       timestamps = (cfg_timestamps c \<noteq> Some False),
       createdAtColumn = str_or (cfg_createdAtColumn c) ''created_at'',
       updatedAtColumn = str_or (cfg_updatedAtColumn c) ''updated_at'' \<rparr>"

subsection \<open>Hooks\<close>

text \<open>
  \<open>this.hooks[hookName]\<close> on the object literal of the constructor: one of its
  seven arrays, or a property every object inherits from \<open>Object.prototype\<close>
  (truthy, and no array), or \<open>undefined\<close>.
\<close>

datatype 'x slot = Stage "'x hook list" | Inherited | Missing

definition hooks_lookup :: "string \<Rightarrow> 'x hooks \<Rightarrow> 'x slot" where
  "hooks_lookup hookName hs =
     (if hookName = ''beforeQuery'' then Stage (beforeQuery hs)
      else if hookName = ''afterQuery'' then Stage (afterQuery hs)
      else if hookName = ''onError'' then Stage (onError hs)
      else if hookName = ''beforeInsert'' then Stage (beforeInsert hs)
      else if hookName = ''afterInsert'' then Stage (afterInsert hs)
      else if hookName = ''beforeUpdate'' then Stage (beforeUpdate hs)
      else if hookName = ''afterUpdate'' then Stage (afterUpdate hs)
      else if hookName \<in> set object_prototype_names then Inherited
      else Missing)"



fun run_callbacks :: "'x hook list \<Rightarrow> hookdata \<Rightarrow> (unit, 'x state) prog" where
  "run_callbacks [] d = ret ()"
| "run_callbacks (cb # cbs) d = andThen (callback (cb d)) (\<lambda>_. run_callbacks cbs d)"

definition runHooks :: "string \<Rightarrow> hookdata \<Rightarrow> (unit, 'x state) prog" where
  "runHooks hookName d =
     andThen (gets (\<lambda>s. hooks_lookup hookName (hooks (self s)))) (\<lambda>slot.
       case slot of
         Stage cbs \<Rightarrow> run_callbacks cbs d
       | Inherited \<Rightarrow> throw (TypeError ''this.hooks[hookName] is not iterable'')
       | Missing \<Rightarrow> throw (TypeError ''this.hooks[hookName] is not iterable''))"



subsection \<open>Cache\<close>

definition getCacheKey :: "'x runtime \<Rightarrow> string \<Rightarrow> jsval list \<Rightarrow> string" where
  "getCacheKey rt text ps = text @ '':'' @ json_stringify rt ps"

text \<open>\<open>this.cache.delete(key)\<close>.\<close>

definition cache_delete :: "string \<Rightarrow> 'x state \<Rightarrow> 'x state" where
  "cache_delete key s = s\<lparr> self := (self s)\<lparr> cache := (cache (self s))(key := None) \<rparr> \<rparr>"

definition getFromCache :: "'x runtime \<Rightarrow> string \<Rightarrow> (result option, 'x state) prog" where
  "getFromCache rt key =
     andThen (gets (\<lambda>s. cache (self s) key)) (\<lambda>cached.
       case cached of
         None \<Rightarrow> ret None
       | Some c \<Rightarrow>
           andThen (now rt) (\<lambda>t.
             if t < expiry c then ret (Some (entry_data c))
             else andThen (modify (cache_delete key)) (\<lambda>_. ret None)))"

text \<open>\<open>_setCache(key, data, ttl = this.cacheTTL)\<close>: \<open>None\<close> is \<open>undefined\<close>.\<close>

definition setCache :: "'x runtime \<Rightarrow> string \<Rightarrow> result \<Rightarrow> int option \<Rightarrow> (unit, 'x state) prog" where
  "setCache rt key d ttl_arg =
     andThen (gets (\<lambda>s. case ttl_arg of None \<Rightarrow> cacheTTL (self s) | Some t \<Rightarrow> t)) (\<lambda>ttl.
     andThen (now rt) (\<lambda>t.
       modify (\<lambda>s. s\<lparr> self := (self s)\<lparr> cache := (cache (self s))
                  (key := Some \<lparr> entry_data = d, expiry = t + ttl \<rparr>) \<rparr> \<rparr>)))"

definition clearCache :: "(unit, 'x state) prog" where
  "clearCache =
     andThen (modify (\<lambda>s. s\<lparr> self := (self s)\<lparr> cache := (\<lambda>k. None) \<rparr> \<rparr>)) (\<lambda>_.
     emit CacheCleared)"

subsection \<open>Connections\<close>

definition createPool :: "(unit, 'x state) prog" where
  "createPool =
     andThen (gets (\<lambda>s. pool (self s))) (\<lambda>p.
       when_p (\<not> p)
         (andThen (modify (\<lambda>s. s\<lparr> self := (self s)\<lparr> pool := True \<rparr> \<rparr>)) (\<lambda>_.
          emit PoolCreated)))"

text \<open>
  \<open>_connectWithRetry(attempt = 1)\<close>: the recursion ends because \<open>attempt\<close> climbs
  to \<open>this.retryAttempts\<close>, which nothing in between changes.
\<close>

function connectWithRetry :: "'x runtime \<Rightarrow> int \<Rightarrow> (conn, 'x state) prog" where
  "connectWithRetry rt attempt s =
     (case createConnection rt (ext (world s)) of
        (Inr c, x') \<Rightarrow> (Inr c, s\<lparr> world := (world s)\<lparr> ext := x' \<rparr> \<rparr>)
      | (Inl e, x') \<Rightarrow>
          (if attempt < retryAttempts (self s) then
             connectWithRetry rt (attempt + 1)
               (s\<lparr> emitted := emitted s @ [ConnectionRetry attempt (message e)],
                   world := (world s)\<lparr> ext := sleep rt (retryDelay (self s) * attempt) x' \<rparr> \<rparr>)
           else
             (Inl (Error (''Failed to connect after '' @ num_to_string (retryAttempts (self s))
                          @ '' attempts: '' @ message e)),
              s\<lparr> world := (world s)\<lparr> ext := x' \<rparr> \<rparr>)))"
  by pat_completeness auto
termination
  by (relation "measure (\<lambda>(rt, attempt, s). nat (retryAttempts (self s) - attempt))") auto

definition connect :: "'x runtime \<Rightarrow> (conn, 'x state) prog" where
  "connect rt =
     andThen (gets (\<lambda>s. connection (self s))) (\<lambda>existing.
       case existing of
         Some c \<Rightarrow> ret c
       | None \<Rightarrow>
           andThen (connectWithRetry rt 1) (\<lambda>c.
           andThen (modify (\<lambda>s. s\<lparr> self := (self s)\<lparr> connection := Some c \<rparr> \<rparr>)) (\<lambda>_.
           andThen (emit (Connected (threadId c))) (\<lambda>_.
           ret c))))"

subsection \<open>Query execution with hooks and caching\<close>

text \<open>The \<open>options\<close> argument of \<open>query\<close>: \<open>None\<close> is a key the caller left out.\<close>

record query_options =
  opt_cache :: "bool option"
  opt_cacheTTL :: "int option"

definition no_options :: query_options where
  "no_options = \<lparr> opt_cache = None, opt_cacheTTL = None \<rparr>"

text \<open>\<open>rows.length\<close>.\<close>

fun row_count :: "result \<Rightarrow> jsval" where
  "row_count (Rows rs) = JNum (int (length rs))"
| "row_count (Header h) = obj_get h ''length''"

text \<open>\<open>(this.pool || this.connection).execute(sql, params)\<close>.\<close>

definition execute :: "'x runtime \<Rightarrow> string \<Rightarrow> jsval list \<Rightarrow> (result, 'x state) prog" where
  "execute rt text ps =
     andThen (gets self) (\<lambda>h.
       if pool h then driver (pool_execute rt text ps)
       else case connection h of
              Some c \<Rightarrow> driver (conn_execute rt c text ps)
            | None \<Rightarrow> throw (TypeError ''Cannot read properties of null (reading execute)''))"

text \<open>
  \<open>query(sql, params = [], options = {})\<close> is written in three blocks: the body of
  the \<open>try\<close> after the cache lookup has missed (\<open>query_uncached\<close>), the \<open>catch\<close>
  block (\<open>query_catch\<close>), and the method itself with the cache lookup in front.
  \<open>timestamp\<close> is the \<open>Date.now()\<close> of \<open>queryData\<close>.
\<close>

definition query_uncached ::
  "'x runtime \<Rightarrow> string \<Rightarrow> jsval list \<Rightarrow> query_options \<Rightarrow> int \<Rightarrow> (result, 'x state) prog" where
  "query_uncached rt text ps options timestamp =
     andThen (runHooks ''beforeQuery'' (QueryData text ps timestamp)) (\<lambda>_.
     andThen (gets (\<lambda>s. pool (self s) \<or> connection (self s) \<noteq> None)) (\<lambda>conn.
     andThen (when_p (\<not> conn) createPool) (\<lambda>_.
     andThen (now rt) (\<lambda>startTime.
     andThen (execute rt text ps) (\<lambda>rows.
     andThen (now rt) (\<lambda>endTime.
     andThen (gets (\<lambda>s. logQueries (self s))) (\<lambda>logging.
     andThen (when_p logging
        (andThen (now rt) (\<lambda>t.
           modify (\<lambda>s. s\<lparr> self := (self s)\<lparr> queryLog := queryLog (self s) @
             [\<lparr> log_sql = text, log_params = ps,
                log_executionTime = endTime - startTime, log_timestamp = t \<rparr>] \<rparr> \<rparr>)))) (\<lambda>_.
     andThen (runHooks ''afterQuery''
        (AfterQueryData text ps timestamp rows (endTime - startTime))) (\<lambda>_.
     andThen (gets (\<lambda>s. cacheEnabled (self s) \<and> opt_cache options \<noteq> Some False)) (\<lambda>store.
     andThen (when_p store
        (setCache rt (getCacheKey rt text ps) rows (opt_cacheTTL options))) (\<lambda>_.
     andThen (emit (QueryExecuted text ps (endTime - startTime) (row_count rows))) (\<lambda>_.
     ret rows))))))))))))"

definition query_catch :: "string \<Rightarrow> jsval list \<Rightarrow> int \<Rightarrow> error \<Rightarrow> (result, 'x state) prog" where
  "query_catch text ps timestamp error =
     andThen (runHooks ''onError'' (ErrorData text ps timestamp error)) (\<lambda>_.
     andThen (emit (QueryError text ps (message error))) (\<lambda>_.
     throw (Error (''Query failed: '' @ message error))))"

definition query :: "'x runtime \<Rightarrow> string \<Rightarrow> jsval list \<Rightarrow> query_options \<Rightarrow> (result, 'x state) prog" where
  "query rt text ps options =
     andThen (now rt) (\<lambda>timestamp.
     try_catch
       (andThen (gets (\<lambda>s. cacheEnabled (self s) \<and> opt_cache options \<noteq> Some False)) (\<lambda>use_cache.
        andThen (if use_cache then getFromCache rt (getCacheKey rt text ps) else ret None) (\<lambda>cached.
          case cached of
            Some d \<Rightarrow> andThen (emit (CacheHit text ps)) (\<lambda>_. ret d)
          | None \<Rightarrow> query_uncached rt text ps options timestamp)))
       (query_catch text ps timestamp))"

text \<open>Relations between the state before and after a method, and methods that keep one.\<close>

definition keeps :: "('s \<Rightarrow> 's \<Rightarrow> bool) \<Rightarrow> ('a, 's) prog \<Rightarrow> bool" where
  "keeps R m = (\<forall>s. R s (snd (m s)))"

fun is_cache_hit :: "event \<Rightarrow> bool" where
  "is_cache_hit (CacheHit text ps) = True"
| "is_cache_hit _ = False"

fun is_progress :: "event \<Rightarrow> bool" where
  "is_progress (BatchProgress k n rows) = True"
| "is_progress _ = False"

text \<open>The signals of kind \<open>P\<close> emitted so far are the same in both states.\<close>

definition same_signals :: "(event \<Rightarrow> bool) \<Rightarrow> 'x state \<Rightarrow> 'x state \<Rightarrow> bool" where
  "same_signals P s s' = (filter P (emitted s') = filter P (emitted s))"

text \<open>A field of the helper is the same in both states.\<close>

definition same_field :: "('x helper \<Rightarrow> 'b) \<Rightarrow> 'x state \<Rightarrow> 'x state \<Rightarrow> bool" where
  "same_field f a b = (f (self b) = f (self a))"

subsection \<open>A database client for examples\<close>

text \<open>
  The outside state is the list of the driver calls made so far, and the clock
  advances one millisecond with each of them. Every call succeeds, except the
  execution of the statement \<open>SELECT broken\<close>.
\<close>

fun demo_json_value :: "jsval \<Rightarrow> string" where
  "demo_json_value JUndefined = ''null''"
| "demo_json_value JNull = ''null''"
| "demo_json_value (JBool b) = (if b then ''true'' else ''false'')"
| "demo_json_value (JNum n) = num_to_string n"
| "demo_json_value (JStr s) = [CHR 0x22] @ s @ [CHR 0x22]"
| "demo_json_value (JDate t) = num_to_string t"

definition demo_execute :: "string \<Rightarrow> jsval list \<Rightarrow> string list \<Rightarrow> (error + result) \<times> string list" where
  "demo_execute text ps x =
     (if text = ''SELECT broken'' then Inl (Error ''ER_PARSE_ERROR'')
      else if take 6 text = ''SELECT'' then Inr (Rows [[(''id'', JNum 1)]])
      else Inr (Header [(''insertId'', JNum 1), (''affectedRows'', JNum 1), (''changedRows'', JNum 1)]),
      x @ [''execute '' @ text])"

definition demo_rt :: "(string list) runtime" where
  "demo_rt =
     \<lparr> date_now = (\<lambda>x. int (length x)),
       json_stringify = (\<lambda>ps. ''['' @ js_join '','' (map demo_json_value ps) @ '']''),
       sleep = (\<lambda>ms x. x @ [''sleep'']),
       createConnection = (\<lambda>x. (Inr (Conn 7), x @ [''createConnection''])),
       pool_getConnection = (\<lambda>x. (Inr (Conn 3), x @ [''getConnection''])),
       pool_execute = demo_execute,
       conn_execute = (\<lambda>c. demo_execute),
       conn_beginTransaction = (\<lambda>c x. (None, x @ [''beginTransaction''])),
       conn_commit = (\<lambda>c x. (None, x @ [''commit''])),
       conn_rollback = (\<lambda>c x. (None, x @ [''rollback''])),
       conn_release = (\<lambda>c x. x @ [''release'']) \<rparr>"

definition demo_config :: config where
  "demo_config = \<lparr> cfg_cache = True, cfg_cacheTTL = Some 5, cfg_retryAttempts = None,
       cfg_retryDelay = None, cfg_logQueries = False, cfg_timestamps = None,
       cfg_createdAtColumn = None, cfg_updatedAtColumn = None \<rparr>"

text \<open>A helper fresh from the constructor, after \<open>createPool()\<close>, in an empty world.\<close>

definition demo_state :: "(string list) state" where
  "demo_state =
     \<lparr> self = (new_helper demo_config)\<lparr> pool := True \<rparr>,
       emitted = [PoolCreated],
       world = \<lparr> heap = [], ext = [] \<rparr> \<rparr>"

text \<open>The same helper with one \<open>onError\<close> callback, which rejects.\<close>

definition failing_hook :: "(string list) hook" where
  "failing_hook d w = (Some (Error ''hook failed''), w)"

definition demo_state_onError :: "(string list) state" where
  "demo_state_onError =
     demo_state\<lparr> self := (self demo_state)\<lparr> hooks := (hooks (self demo_state))\<lparr> onError := [failing_hook] \<rparr> \<rparr> \<rparr>"

text \<open>
  A helper fresh from the constructor, with neither pool nor connection, the same
  rejecting \<open>onError\<close> callback, and an entry left in the cache that expired at
  time \<open>0\<close>.
\<close>

definition demo_state_fresh_onError :: "(string list) state" where
  "demo_state_fresh_onError =
     \<lparr> self = (new_helper demo_config)
          \<lparr> hooks := (hooks (new_helper demo_config))\<lparr> onError := [failing_hook] \<rparr>,
            cache := (\<lambda>k. None)(''SELECT broken:[]'' :=
                        Some \<lparr> entry_data = Rows [], expiry = 0 \<rparr>) \<rparr>,
       emitted = [],
       world = \<lparr> heap = [], ext = [] \<rparr> \<rparr>"

subsection \<open>Transactions\<close>

text \<open>
  The callback of \<open>transaction\<close> is the caller's code working on the connection it
  is given: it changes the world and resolves to a value or rejects.
\<close>

definition user :: "('x world \<Rightarrow> (error + 'a) \<times> 'x world) \<Rightarrow> ('a, 'x state) prog" where
  "user f s = (case f (world s) of (r, w') \<Rightarrow> (r, s\<lparr> world := w' \<rparr>))"

definition release :: "'x runtime \<Rightarrow> conn \<Rightarrow> (unit, 'x state) prog" where
  "release rt c = modify (\<lambda>s. s\<lparr> world := (world s)\<lparr> ext := conn_release rt c (ext (world s)) \<rparr> \<rparr>)"

definition beginTransaction :: "'x runtime \<Rightarrow> (conn, 'x state) prog" where
  "beginTransaction rt =
     andThen (gets (\<lambda>s. pool (self s))) (\<lambda>p.
     andThen (if p then driver (pool_getConnection rt) else connect rt) (\<lambda>c.
     andThen (driver_unit (conn_beginTransaction rt c)) (\<lambda>_.
     andThen (emit (TransactionStarted (threadId c))) (\<lambda>_.
     ret c))))"

definition transaction ::
  "'x runtime \<Rightarrow> (conn \<Rightarrow> 'x world \<Rightarrow> (error + 'a) \<times> 'x world) \<Rightarrow> ('a, 'x state) prog" where
  "transaction rt cb =
     andThen (beginTransaction rt) (\<lambda>c.
       try_finally
         (try_catch
            (andThen (user (cb c)) (\<lambda>r.
             andThen (driver_unit (conn_commit rt c)) (\<lambda>_.
             andThen (emit (TransactionCommitted (threadId c))) (\<lambda>_.
             ret r))))
            (\<lambda>error.
             andThen (driver_unit (conn_rollback rt c)) (\<lambda>_.
             andThen (emit (TransactionRolledBack (threadId c) (message error))) (\<lambda>_.
             throw (Error (''Transaction failed: '' @ message error))))))
         (andThen (gets (\<lambda>s. pool (self s))) (\<lambda>p.
          when_p p (release rt c))))"

text \<open>The helper of the examples with a standalone connection and no pool.\<close>

definition demo_state_connected :: "(string list) state" where
  "demo_state_connected =
     \<lparr> self = (new_helper demo_config)\<lparr> connection := Some (Conn 7) \<rparr>,
       emitted = [Connected 7],
       world = \<lparr> heap = [], ext = [''createConnection''] \<rparr> \<rparr>"

text \<open>A transaction callback that rejects at once.\<close>

definition failing_callback :: "conn \<Rightarrow> (string list) world \<Rightarrow> (error + unit) \<times> (string list) world" where
  "failing_callback c w = (Inl (Error ''boom''), w)"

subsection \<open>Objects on the heap\<close>

text \<open>
  A data object is passed by reference. Reading through a reference that names no
  object fails as a property read on \<open>undefined\<close> does. Property names are taken
  not to be array indices, which JavaScript would enumerate first.
\<close>

definition read_obj :: "nat \<Rightarrow> (obj, 'x state) prog" where
  "read_obj r s =
     (if r < length (heap (world s)) then (Inr (heap (world s) ! r), s)
      else (Inl (TypeError ''Cannot read properties of undefined''), s))"

text \<open>\<open>{ ...ob }\<close>: a new object with the same properties.\<close>

definition alloc :: "obj \<Rightarrow> (nat, 'x state) prog" where
  "alloc ob s =
     (Inr (length (heap (world s))), s\<lparr> world := (world s)\<lparr> heap := heap (world s) @ [ob] \<rparr> \<rparr>)"

definition write_prop :: "nat \<Rightarrow> string \<Rightarrow> jsval \<Rightarrow> (unit, 'x state) prog" where
  "write_prop r k v =
     modify (\<lambda>s. s\<lparr> world := (world s)\<lparr> heap := (heap (world s))[r := obj_set (heap (world s) ! r) k v] \<rparr> \<rparr>)"

subsection \<open>Timestamps\<close>

text \<open>\<open>_addTimestamps(data, isUpdate = false)\<close>; \<open>new Date()\<close> is \<open>JDate\<close> of the clock.\<close>

definition addTimestamps :: "'x runtime \<Rightarrow> nat \<Rightarrow> bool \<Rightarrow> (nat, 'x state) prog" where
  "addTimestamps rt d isUpdate =
     andThen (gets (\<lambda>s. timestamps (self s))) (\<lambda>ts.
       if \<not> ts then ret d
       else
         andThen (now rt) (\<lambda>t.
         andThen (read_obj d) (\<lambda>ob.
         andThen (alloc ob) (\<lambda>timestampedData.
         andThen (gets self) (\<lambda>h.
         andThen (when_p (\<not> isUpdate \<and> createdAtColumn h \<noteq> []
                          \<and> \<not> truthy_prop ob (createdAtColumn h))
                    (write_prop timestampedData (createdAtColumn h) (JDate t))) (\<lambda>_.
         andThen (when_p (updatedAtColumn h \<noteq> [] \<and> \<not> truthy_prop ob (updatedAtColumn h))
                    (write_prop timestampedData (updatedAtColumn h) (JDate t))) (\<lambda>_.
         ret timestampedData)))))))"

subsection \<open>Insert and update\<close>

text \<open>\<open>result.insertId\<close> and its like: an array of rows has no such property.\<close>

fun result_field :: "result \<Rightarrow> string \<Rightarrow> jsval" where
  "result_field (Header h) k = obj_get h k"
| "result_field (Rows rs) k = JUndefined"

text \<open>The statement \<open>insert\<close> compiles from the object it inserts.\<close>

definition insert_statement :: "string \<Rightarrow> obj \<Rightarrow> statement" where
  "insert_statement t ob =
     \<lparr> sql = ''INSERT INTO '' @ t @ '' ('' @ js_join '', '' (map fst ob) @ '') VALUES (''
               @ placeholders (map fst ob) @ '')'',
       params = map snd ob \<rparr>"

text \<open>\<open>insert(table, data, options = {})\<close>; \<open>skip\<close> is \<open>options.skipTimestamps\<close>.\<close>

definition insert :: "'x runtime \<Rightarrow> string \<Rightarrow> nat \<Rightarrow> bool \<Rightarrow> (obj, 'x state) prog" where
  "insert rt t d skip =
     andThen (if skip then ret d else addTimestamps rt d False) (\<lambda>timestampedData.
     andThen (runHooks ''beforeInsert'' (InsertData t timestampedData)) (\<lambda>_.
     andThen (read_obj timestampedData) (\<lambda>ob.
     andThen (query rt (sql (insert_statement t ob)) (params (insert_statement t ob)) no_options) (\<lambda>r.
     andThen (runHooks ''afterInsert''
        (AfterInsertData t timestampedData (result_field r ''insertId'')
           (result_field r ''affectedRows''))) (\<lambda>_.
     ret [(''insertId'', result_field r ''insertId''),
          (''affectedRows'', result_field r ''affectedRows'')])))))"

text \<open>The statement \<open>update\<close> compiles from the data object and the \<open>where\<close> object.\<close>

definition update_statement :: "string \<Rightarrow> obj \<Rightarrow> obj \<Rightarrow> statement" where
  "update_statement t ob wh =
     \<lparr> sql = ''UPDATE '' @ t @ '' SET '' @ js_join '', '' (map (\<lambda>(k, v). k @ '' = ?'') ob)
               @ '' WHERE '' @ js_join '' AND '' (map (\<lambda>(k, v). k @ '' = ?'') wh),
       params = map snd ob @ map snd wh \<rparr>"

definition update :: "'x runtime \<Rightarrow> string \<Rightarrow> nat \<Rightarrow> nat \<Rightarrow> bool \<Rightarrow> (obj, 'x state) prog" where
  "update rt t d wh skip =
     andThen (if skip then ret d else addTimestamps rt d True) (\<lambda>timestampedData.
     andThen (runHooks ''beforeUpdate'' (UpdateData t timestampedData wh)) (\<lambda>_.
     andThen (read_obj timestampedData) (\<lambda>ob.
     andThen (read_obj wh) (\<lambda>w.
     andThen (query rt (sql (update_statement t ob w)) (params (update_statement t ob w)) no_options) (\<lambda>r.
     andThen (runHooks ''afterUpdate''
        (AfterUpdateData t timestampedData wh (result_field r ''affectedRows'')
           (result_field r ''changedRows''))) (\<lambda>_.
     ret [(''affectedRows'', result_field r ''affectedRows''),
          (''changedRows'', result_field r ''changedRows'')]))))))"

text \<open>
  Callbacks that leave the heap as it is, and the relation of a state to a later
  one in which the hooks are the same and, when those are such callbacks, the
  first \<open>n\<close> objects of the heap are unchanged.
\<close>

definition gentle_hook :: "'x hook \<Rightarrow> bool" where
  "gentle_hook cb = (\<forall>d w. heap (snd (cb d w)) = heap w)"

definition all_hooks :: "'x hooks \<Rightarrow> 'x hook list" where
  "all_hooks hs = beforeQuery hs @ afterQuery hs @ onError hs @ beforeInsert hs @ afterInsert hs
                    @ beforeUpdate hs @ afterUpdate hs"

definition heap_kept :: "nat \<Rightarrow> 'x state \<Rightarrow> 'x state \<Rightarrow> bool" where
  "heap_kept n s s' =
     (hooks (self s') = hooks (self s)
      \<and> (list_all gentle_hook (all_hooks (hooks (self s))) \<and> n \<le> length (heap (world s)) \<longrightarrow>
           n \<le> length (heap (world s')) \<and> take n (heap (world s')) = take n (heap (world s))))"

text \<open>
  An example: a caller's object that supplies the epoch, \<open>0\<close>, as its creation
  time, in the world of the helper of the examples.
\<close>

definition demo_state_data :: "(string list) state" where
  "demo_state_data =
     demo_state\<lparr> world := \<lparr> heap = [[(''name'', JStr ''a''), (''created_at'', JNum 0),
                                        (''updated_at'', JDate 5)]],
                               ext = [''tick'', ''tick'', ''tick''] \<rparr> \<rparr>"

text \<open>
  The object \<open>_addTimestamps\<close> returns for the caller's object \<open>d\<close>, as it is when
  \<open>_addTimestamps\<close> returns.
\<close>

definition timestamped :: "'x runtime \<Rightarrow> nat \<Rightarrow> bool \<Rightarrow> 'x state \<Rightarrow> obj" where
  "timestamped rt d isUpdate s =
     (case addTimestamps rt d isUpdate s of
        (Inr td, s1) \<Rightarrow> heap (world s1) ! td
      | (Inl e, s1) \<Rightarrow> [])"

text \<open>
  The database client of the examples, keeping with each statement it executes
  the parameters it was given.
\<close>

definition demo_rt_params :: "(string list) runtime" where
  "demo_rt_params =
     demo_rt\<lparr> pool_execute := (\<lambda>text ps x.
        (Inr (Header [(''insertId'', JNum 1), (''affectedRows'', JNum 1), (''changedRows'', JNum 1)]),
         x @ [''execute '' @ text @ '' '' @ json_stringify demo_rt ps])) \<rparr>"

text \<open>
  A second example: a caller's object for an update that supplies \<open>0\<close> as its
  creation time, and the \<open>where\<close> object of that update.
\<close>

definition demo_state_update :: "(string list) state" where
  "demo_state_update =
     demo_state\<lparr> world := \<lparr> heap = [[(''name'', JStr ''b''), (''created_at'', JNum 0)],
                                        [(''id'', JNum 7)]],
                               ext = [''tick'', ''tick'', ''tick''] \<rparr> \<rparr>"

text \<open>\<open>xs.map(f)\<close> with an effectful \<open>f\<close>, left to right.\<close>

fun map_prog :: "('a \<Rightarrow> ('b, 's) prog) \<Rightarrow> 'a list \<Rightarrow> ('b list, 's) prog" where
  "map_prog f [] = ret []"
| "map_prog f (x # xs) = andThen (f x) (\<lambda>y. andThen (map_prog f xs) (\<lambda>ys. ret (y # ys)))"

definition insertMany_sql :: "string \<Rightarrow> obj \<Rightarrow> nat list \<Rightarrow> string" where
  "insertMany_sql t first_ob timestampedArray =
     ''INSERT INTO '' @ t @ '' ('' @ js_join '', '' (map fst first_ob) @ '') VALUES ''
       @ js_join '', '' (map (\<lambda>_. ''('' @ placeholders (map fst first_ob) @ '')'') timestampedArray)"

definition insertMany :: "'x runtime \<Rightarrow> string \<Rightarrow> nat list \<Rightarrow> bool \<Rightarrow> (obj, 'x state) prog" where
  "insertMany rt t dataArray skip =
     (if length dataArray = 0 then throw (Error ''Data array cannot be empty'')
      else
        andThen (if skip then ret dataArray
                 else map_prog (\<lambda>d. addTimestamps rt d False) dataArray) (\<lambda>timestampedArray.
        andThen (read_obj (timestampedArray ! 0)) (\<lambda>first_ob.
        andThen (map_prog read_obj timestampedArray) (\<lambda>obs.
        andThen (query rt (insertMany_sql t first_ob timestampedArray)
                   (concat (map (map snd) obs)) no_options) (\<lambda>r.
        ret [(''insertId'', result_field r ''insertId''),
             (''affectedRows'', result_field r ''affectedRows'')])))))"

subsection \<open>Batch insert\<close>

text \<open>\<open>Array.prototype.slice(start, end)\<close>.\<close>

definition js_slice :: "int \<Rightarrow> int \<Rightarrow> 'a list \<Rightarrow> 'a list" where
  "js_slice start end xs =
     (let n = int (length xs);
          k = (if start < 0 then max (n + start) 0 else min start n);
          f = (if end < 0 then max (n + end) 0 else min end n)
      in take (nat (f - k)) (drop (nat k) xs))"

record batch_result =
  totalBatches :: jsnum
  totalInserted :: int
  results :: "obj list"

text \<open>
  The \<open>for\<close> loop of \<open>batchInsert\<close>, from the counter \<open>i\<close> and the results so far.
  \<open>batches\<close> is \<open>Math.ceil(dataArray.length / batchSize)\<close>, which the loop does
  not change. It ends: with a positive batch size the counter reaches \<open>batches\<close>;
  with batch size zero \<open>batches\<close> is \<open>Infinity\<close> or \<open>NaN\<close>, and the first batch
  is empty, which \<open>insertMany\<close> rejects; with a negative one \<open>batches\<close> is not
  positive.
\<close>

function batchInsert_loop ::
  "'x runtime \<Rightarrow> string \<Rightarrow> nat list \<Rightarrow> int \<Rightarrow> nat \<Rightarrow> obj list \<Rightarrow> (obj list, 'x state) prog" where
  "batchInsert_loop rt t dataArray batchSize i acc s =
     (let batches = ceil_div (Num (int (length dataArray))) batchSize
      in if int_less (int i) batches then
           (let start = int i * batchSize;
                end = min (start + batchSize) (int (length dataArray));
                batch = js_slice start end dataArray
            in case insertMany rt t batch False s of
                 (Inl e, s1) \<Rightarrow> (Inl e, s1)
               | (Inr r, s1) \<Rightarrow>
                   batchInsert_loop rt t dataArray batchSize (Suc i) (acc @ [r])
                     (s1\<lparr> emitted := emitted s1 @ [BatchProgress (int i + 1) batches end] \<rparr>))
         else (Inr acc, s))"
  by pat_completeness auto
termination
  apply (relation "measure (\<lambda>(rt, t, dataArray, batchSize, i, acc, s).
           case ceil_div (Num (int (length dataArray))) batchSize of
             Num c \<Rightarrow> nat (c - int i) | _ \<Rightarrow> 0)")
   apply simp
  apply (case_tac "batchSize = 0")
   apply (simp add: js_slice_def insertMany_def throw_def)
  apply auto
  done

declare batchInsert_loop.simps [simp del]

text \<open>\<open>batchInsert(table, dataArray, batchSize = 100)\<close>.\<close>

definition batchInsert ::
  "'x runtime \<Rightarrow> string \<Rightarrow> nat list \<Rightarrow> int option \<Rightarrow> (batch_result, 'x state) prog" where
  "batchInsert rt t dataArray batchSize_arg =
     (let batchSize = (case batchSize_arg of None \<Rightarrow> 100 | Some b \<Rightarrow> b)
      in if length dataArray = 0 then throw (Error ''Data array cannot be empty'')
         else
           andThen (batchInsert_loop rt t dataArray batchSize 0 []) (\<lambda>rs.
           ret \<lparr> totalBatches = ceil_div (Num (int (length dataArray))) batchSize,
                 totalInserted = int (length dataArray),
                 results = rs \<rparr>))"

text \<open>
  The specification's reading of \<open>batchInsert\<close>: the consecutive chunks of
  \<open>chunkSize\<close> items, the last one with what remains, and a run that inserts them
  one after the other, emitting after chunk \<open>k\<close> the progress
  \<open>(k, tot, min (k * chunkSize) n)\<close>.
\<close>

definition chunks :: "nat \<Rightarrow> 'a list \<Rightarrow> 'a list list" where
  "chunks chunkSize xs =
     map (\<lambda>k. take chunkSize (drop (k * chunkSize) xs))
       [0 ..< (length xs + chunkSize - 1) div chunkSize]"

fun insert_chunks ::
  "'x runtime \<Rightarrow> string \<Rightarrow> nat \<Rightarrow> nat \<Rightarrow> nat \<Rightarrow> nat \<Rightarrow> nat list list \<Rightarrow> obj list \<Rightarrow> (obj list, 'x state) prog" where
  "insert_chunks rt t tot chunkSize n k [] acc = ret acc"
| "insert_chunks rt t tot chunkSize n k (ch # chs) acc =
     andThen (insertMany rt t ch False) (\<lambda>r.
     andThen (emit (BatchProgress (int k) (Num (int tot)) (int (min (k * chunkSize) n)))) (\<lambda>_.
     insert_chunks rt t tot chunkSize n (Suc k) chs (acc @ [r])))"

text \<open>Three rows to insert, in the world of the helper of the examples.\<close>

definition demo_state_rows :: "(string list) state" where
  "demo_state_rows =
     demo_state\<lparr> world := \<lparr> heap = [[(''name'', JStr ''a'')], [(''name'', JStr ''b'')],
                                        [(''name'', JStr ''c'')]],
                               ext = [] \<rparr> \<rparr>"

section \<open>Placeholders and parameters\<close>




lemma cq_append [simp]: "placeholder_count (a @ b) = placeholder_count a + placeholder_count b" by (simp add: placeholder_count_def)
lemma cq_Nil [simp]: "placeholder_count [] = 0" by (simp add: placeholder_count_def)
lemma cq_Cons [simp]: "placeholder_count (c # s) = (if c = CHR ''?'' then Suc (placeholder_count s) else placeholder_count s)"
  by (simp add: placeholder_count_def)


lemma qsum_simps [simp]: "qsum [] = 0" "qsum (x # xs) = placeholder_count x + qsum xs" "qsum (xs @ ys) = qsum xs + qsum ys"
  by (simp_all add: qsum_def)












lemma run_Nil [simp]: "run [] b = b" by (simp add: run_def)
lemma run_snoc [simp]: "run (cs @ [c]) b = apply_call c (run cs b)" by (simp add: run_def)




section \<open>Terminal operations and the reset\<close>

lemma get_success: "get q b s = (Inr r, b', s') \<Longrightarrow> b' = reset"
  by (auto simp: get_def split: prod.splits sum.splits)

lemma first_success: "first q b s = (Inr r, b', s') \<Longrightarrow> b' = reset"
  by (auto simp: first_def split: prod.splits sum.splits dest: get_success)

lemma count_success: "count q b s = (Inr n, b', s') \<Longrightarrow> b' = reset\<lparr> b_columns := b_columns b \<rparr>"
  by (auto simp: count_def Let_def split: prod.splits sum.splits dest: first_success)

lemma paginate_success: "paginate str_num q page per b s = (Inr p, b', s') \<Longrightarrow> b' = reset"
  by (auto simp: paginate_def Let_def split: prod.splits sum.splits dest: get_success)

text \<open>
  C2 (as amended). When \<open>get\<close>, \<open>first\<close> or \<open>paginate\<close> returns a result, the builder
  it leaves is the fresh intent of \<open>reset\<close>, and a second \<open>get\<close> right after the
  first sends \<open>SELECT * FROM\<close> with no parameters. When \<open>count\<close> returns a result,
  every field other than the column list is that of the fresh intent.
\<close>

theorem terminal_reset:
  "(get q b s = (Inr r, b1, s1) \<longrightarrow>
      b1 = reset
      \<and> get q b1 s1 = (case q ''SELECT * FROM '' [] s1 of
                          (Inl e, s2) \<Rightarrow> (Inl e, reset, s2)
                        | (Inr r2, s2) \<Rightarrow> (Inr r2, reset, s2)))
   \<and> (first q b s = (Inr row, b2, s2) \<longrightarrow> b2 = reset)
   \<and> (count q b s = (Inr n, b3, s3) \<longrightarrow> b3\<lparr> b_columns := [''*''] \<rparr> = reset)
   \<and> (paginate str_num q page per b s = (Inr p, b4, s4) \<longrightarrow> b4 = reset)"
proof -
  have d: "toSQL reset = \<lparr> sql = ''SELECT * FROM '', params = [] \<rparr>"
    by (simp add: toSQL_def reset_def)
  have g: "get q reset s1 = (case q ''SELECT * FROM '' [] s1 of
                          (Inl e, s2) \<Rightarrow> (Inl e, reset, s2)
                        | (Inr r2, s2) \<Rightarrow> (Inr r2, reset, s2))"
    by (simp add: get_def d)
  have c: "count q b s = (Inr n, b3, s3) \<Longrightarrow> b3\<lparr> b_columns := [''*''] \<rparr> = reset"
    by (drule count_success) (simp add: reset_def)
  show ?thesis
    using g c by (auto dest: get_success first_success paginate_success)
qed

lemma n1: "num_to_string 1 = ''1''" by code_simp
lemma n10: "num_to_string 10 = ''10''" by code_simp

text \<open>
  The claim as stated fails for \<open>count\<close>: it puts back the column list it saved
  after the reset, so \<open>select('id')\<close> then \<open>count()\<close> leaves the columns \<open>['id']\<close>.
\<close>

theorem terminal_reset_counterexample:
  "count (recording_db (\<lambda>text ps. Inr (Rows [[(''count'', JNum 25)]]))) (select [''id''] (table ''users'' reset)) []
     = (Inr (JNum 25), reset\<lparr> b_columns := [''id''] \<rparr>,
        [\<lparr> sql = ''SELECT COUNT(*) as count FROM users LIMIT 1'', params = [] \<rparr>])
   \<and> reset\<lparr> b_columns := [''id''] \<rparr> \<noteq> reset"
  by (simp add: count_def first_def get_def recording_db_def select_def table_def limit_def
      toSQL_def reset_def obj_get_def n1)


lemma paginate_data_query:
  assumes "count q b s = (Inr n, b1, s1)"
  shows "b1 = reset\<lparr> b_columns := b_columns b \<rparr>"
    and "paginate str_num q (Some page) (Some per) b s =
      (case q (sql (toSQL (offset ((page - 1) * per) (limit per (reset\<lparr> b_columns := b_columns b \<rparr>))))) [] s1 of
         (Inl e, s2) \<Rightarrow> (Inl e, offset ((page - 1) * per) (limit per (reset\<lparr> b_columns := b_columns b \<rparr>)), s2)
       | (Inr d, s2) \<Rightarrow>
           (Inr \<lparr> data = d, pagination = \<lparr> currentPage = page, perPage = per, totalItems = n,
                    totalPages = ceil_div (to_number str_num n) per,
                    hasNextPage = int_less page (ceil_div (to_number str_num n) per),
                    hasPrevPage = (page > 1) \<rparr> \<rparr>, reset, s2))"
proof -
  show b1: "b1 = reset\<lparr> b_columns := b_columns b \<rparr>" using assms by (rule count_success)
  have "params (toSQL (offset ((page - 1) * per) (limit per (reset\<lparr> b_columns := b_columns b \<rparr>)))) = []"
    by (simp add: toSQL_def offset_def limit_def reset_def Let_def)
  then show "paginate str_num q (Some page) (Some per) b s =
      (case q (sql (toSQL (offset ((page - 1) * per) (limit per (reset\<lparr> b_columns := b_columns b \<rparr>))))) [] s1 of
         (Inl e, s2) \<Rightarrow> (Inl e, offset ((page - 1) * per) (limit per (reset\<lparr> b_columns := b_columns b \<rparr>)), s2)
       | (Inr d, s2) \<Rightarrow>
           (Inr \<lparr> data = d, pagination = \<lparr> currentPage = page, perPage = per, totalItems = n,
                    totalPages = ceil_div (to_number str_num n) per,
                    hasNextPage = int_less page (ceil_div (to_number str_num n) per),
                    hasPrevPage = (page > 1) \<rparr> \<rparr>, reset, s2))"
    using assms b1 by (simp add: paginate_def Let_def get_def split: prod.splits sum.splits)
qed

lemma products_count:
  "count (recording_db products_answer) products_builder [] =
     (Inr (JNum 25), reset,
      [\<lparr> sql = ''SELECT COUNT(*) as count FROM products WHERE category = ? LIMIT 1'',
         params = [JStr ''electronics''] \<rparr>])"
  by (simp add: count_def first_def get_def recording_db_def products_builder_def products_answer_def
      where_b_def table_def limit_def toSQL_def reset_def obj_get_def n1)

text \<open>
  C1 (failing input). On a builder for \<open>products\<close> filtered by category, in front
  of a database where the filter selects 25 rows, \<open>paginate(2, 10)\<close> sends the count
  statement with the filter and then a data statement with no table, no predicate
  and no join: \<open>count\<close> has reset the builder. The server rejects that text, and
  \<open>paginate\<close> fails instead of returning the ten rows.
\<close>

theorem paginate_drops_filter:
  "paginate str_num (recording_db products_answer) (Some 2) (Some 10) products_builder [] =
     (Inl (Error ''You have an error in your SQL syntax''),
      offset 10 (limit 10 reset),
      [\<lparr> sql = ''SELECT COUNT(*) as count FROM products WHERE category = ? LIMIT 1'',
         params = [JStr ''electronics''] \<rparr>,
       \<lparr> sql = ''SELECT * FROM  LIMIT 10 OFFSET 10'', params = [] \<rparr>])"
proof -
  have t: "sql (toSQL (offset 10 (limit 10 reset))) = ''SELECT * FROM  LIMIT 10 OFFSET 10''"
    by (simp add: toSQL_def offset_def limit_def reset_def n10)
  have r: "reset\<lparr> b_columns := b_columns products_builder \<rparr> = reset"
    by (simp add: products_builder_def where_b_def table_def reset_def)
  show ?thesis
    using paginate_data_query(2)[OF products_count, of str_num 2 10]
    by (simp add: r t recording_db_def products_answer_def)
qed

theorem terminal_reset_witness:
  "get (recording_db products_answer) (limit 1 (products_builder\<lparr> b_columns := [''COUNT(*) as count''] \<rparr>)) []
     = (Inr (Rows [[(''count'', JNum 25)]]), reset,
        [\<lparr> sql = ''SELECT COUNT(*) as count FROM products WHERE category = ? LIMIT 1'',
           params = [JStr ''electronics''] \<rparr>])
   \<and> get (recording_db products_answer) reset
         [\<lparr> sql = ''SELECT COUNT(*) as count FROM products WHERE category = ? LIMIT 1'',
            params = [JStr ''electronics''] \<rparr>] =
       (Inl (Error ''You have an error in your SQL syntax''), reset,
        [\<lparr> sql = ''SELECT COUNT(*) as count FROM products WHERE category = ? LIMIT 1'',
            params = [JStr ''electronics''] \<rparr>,
         \<lparr> sql = ''SELECT * FROM '', params = [] \<rparr>])
   \<and> count (recording_db products_answer) products_builder [] =
       (Inr (JNum 25), reset,
        [\<lparr> sql = ''SELECT COUNT(*) as count FROM products WHERE category = ? LIMIT 1'',
           params = [JStr ''electronics''] \<rparr>])"
proof -
  have g: "get (recording_db products_answer) (limit 1 (products_builder\<lparr> b_columns := [''COUNT(*) as count''] \<rparr>)) []
     = (Inr (Rows [[(''count'', JNum 25)]]), reset,
        [\<lparr> sql = ''SELECT COUNT(*) as count FROM products WHERE category = ? LIMIT 1'',
           params = [JStr ''electronics''] \<rparr>])"
    by (simp add: get_def recording_db_def products_builder_def products_answer_def
      where_b_def table_def limit_def toSQL_def reset_def n1)
  show ?thesis
    using g terminal_reset[of "recording_db products_answer"
        "limit 1 (products_builder\<lparr> b_columns := [''COUNT(*) as count''] \<rparr>)" "[]"
        "Rows [[(''count'', JNum 25)]]" reset
        "[\<lparr> sql = ''SELECT COUNT(*) as count FROM products WHERE category = ? LIMIT 1'',
           params = [JStr ''electronics''] \<rparr>]"]
      products_count
    by (simp add: get_def recording_db_def products_answer_def toSQL_def reset_def)
qed

section \<open>Hook registration\<close>








section \<open>Steps of a method\<close>

lemma gets_apply [simp]: "gets f s = (Inr (f s), s)" by (simp add: gets_def)
lemma modify_apply [simp]: "modify f s = (Inr (), f s)" by (simp add: modify_def)
lemma emit_apply [simp]: "emit ev s = (Inr (), s\<lparr> emitted := emitted s @ [ev] \<rparr>)" by (simp add: emit_def)
lemma now_apply [simp]: "now rt s = (Inr (date_now rt (ext (world s))), s)" by (simp add: now_def)
lemma when_p_simps [simp]: "when_p True m = m" "when_p False m s = (Inr (), s)" by (simp_all add: when_p_def ret_def)

lemma andThen_Inr [simp]: "m s = (Inr x, s') \<Longrightarrow> andThen m f s = f x s'" by (simp add: andThen_def)
lemma andThen_Inl [simp]: "m s = (Inl e, s') \<Longrightarrow> andThen m f s = (Inl e, s')" by (simp add: andThen_def)

lemma andThen_InrE:
  assumes "andThen m f s = (Inr y, s')"
  obtains x s1 where "m s = (Inr x, s1)" "f x s1 = (Inr y, s')"
  using assms by (auto simp: andThen_def split: prod.splits sum.splits)

subsection \<open>Methods that keep a relation\<close>

lemma keepsD: "keeps R m \<Longrightarrow> m s = (r, s') \<Longrightarrow> R s s'"
  by (auto simp: keeps_def dest: spec[of _ s])

lemma keeps_ret: "reflp R \<Longrightarrow> keeps R (ret x)"
  by (simp add: keeps_def reflp_def ret_def)

lemma keeps_throw: "reflp R \<Longrightarrow> keeps R (throw e)"
  by (simp add: keeps_def reflp_def throw_def)

lemma keeps_gets: "reflp R \<Longrightarrow> keeps R (gets f)"
  by (simp add: keeps_def reflp_def)

lemma keeps_now: "reflp R \<Longrightarrow> keeps R (now rt)"
  by (simp add: keeps_def reflp_def)

lemma keeps_andThen:
  assumes "transp R" "keeps R m" "\<And>x. keeps R (f x)"
  shows "keeps R (andThen m f)"
  unfolding keeps_def
proof
  fix s
  show "R s (snd (andThen m f s))"
  proof (cases "m s")
    case (Pair r s1)
    with assms(2) have 1: "R s s1" by (auto dest: keepsD)
    show ?thesis
    proof (cases r)
      case (Inl e)
      with Pair 1 show ?thesis by simp
    next
      case (Inr x)
      have "R s1 (snd (f x s1))" using assms(3) by (simp add: keeps_def)
      with 1 assms(1) have "R s (snd (f x s1))" by (auto dest: transpD)
      with Pair Inr show ?thesis by simp
    qed
  qed
qed

lemma keeps_try_catch:
  assumes "transp R" "keeps R m" "\<And>e. keeps R (handler e)"
  shows "keeps R (try_catch m handler)"
  unfolding keeps_def
proof
  fix s
  show "R s (snd (try_catch m handler s))"
  proof (cases "m s")
    case (Pair r s1)
    with assms(2) have 1: "R s s1" by (auto dest: keepsD)
    show ?thesis
    proof (cases r)
      case (Inl e)
      have "R s1 (snd (handler e s1))" using assms(3) by (simp add: keeps_def)
      with 1 assms(1) have "R s (snd (handler e s1))" by (auto dest: transpD)
      with Pair Inl show ?thesis by (simp add: try_catch_def)
    next
      case (Inr x)
      with Pair 1 show ?thesis by (simp add: try_catch_def)
    qed
  qed
qed

lemma keeps_try_finally:
  assumes "transp R" "keeps R m" "keeps R fin"
  shows "keeps R (try_finally m fin)"
  unfolding keeps_def
proof
  fix s
  obtain r s1 where m: "m s = (r, s1)" by (cases "m s")
  obtain u s2 where f: "fin s1 = (u, s2)" by (cases "fin s1")
  from m assms(2) have "R s s1" by (auto dest: keepsD)
  moreover from f assms(3) have "R s1 s2" by (auto dest: keepsD)
  ultimately have "R s s2" using assms(1) by (auto dest: transpD)
  with m f show "R s (snd (try_finally m fin s))"
    by (cases u) (simp_all add: try_finally_def)
qed

lemma keeps_when: "reflp R \<Longrightarrow> keeps R m \<Longrightarrow> keeps R (when_p c m)"
  by (cases c) (simp_all add: keeps_def reflp_def when_p_def ret_def)

lemma keeps_if: "keeps R m \<Longrightarrow> keeps R m' \<Longrightarrow> keeps R (if c then m else m')"
  by simp

lemma keeps_case_option:
  "keeps R a \<Longrightarrow> (\<And>y. keeps R (b y)) \<Longrightarrow> keeps R (case x of None \<Rightarrow> a | Some y \<Rightarrow> b y)"
  by (cases x) simp_all

lemma keeps_run_callbacks:
  assumes "reflp R" "transp R" "\<And>f. keeps R (callback f)"
  shows "keeps R (run_callbacks cbs d)"
proof (induction cbs)
  case Nil
  show ?case unfolding run_callbacks.simps by (rule keeps_ret[OF assms(1)])
next
  case (Cons cb cbs)
  show ?case unfolding run_callbacks.simps by (intro keeps_andThen assms Cons.IH)
qed

lemma keeps_runHooks:
  assumes "reflp R" "transp R" "\<And>f. keeps R (callback f)"
  shows "keeps R (runHooks hookName d)"
proof -
  have "keeps R (case slot of Stage cbs \<Rightarrow> run_callbacks cbs d
       | Inherited \<Rightarrow> throw (TypeError ''this.hooks[hookName] is not iterable'')
       | Missing \<Rightarrow> throw (TypeError ''this.hooks[hookName] is not iterable''))" for slot :: "'a slot"
    by (cases slot) (simp_all add: keeps_run_callbacks assms keeps_throw)
  then show ?thesis
    unfolding runHooks_def by (intro keeps_andThen keeps_gets assms)
qed

subsection \<open>Signals\<close>

lemma same_signals_reflp: "reflp (same_signals P)"
  by (simp add: reflp_def same_signals_def)

lemma same_signals_transp: "transp (same_signals P)"
  by (auto simp: transp_def same_signals_def)

lemma quiet_callback: "keeps (same_signals P) (callback f)"
  by (auto simp: keeps_def same_signals_def callback_def split: prod.splits option.splits)

lemma quiet_driver: "keeps (same_signals P) (driver f)"
  by (auto simp: keeps_def same_signals_def driver_def split: prod.splits)

lemma quiet_driver_unit: "keeps (same_signals P) (driver_unit f)"
  by (auto simp: keeps_def same_signals_def driver_unit_def split: prod.splits option.splits)

lemma quiet_modify: "(\<And>s. emitted (f s) = emitted s) \<Longrightarrow> keeps (same_signals P) (modify f)"
  by (simp add: keeps_def same_signals_def)

lemma quiet_emit: "\<not> P ev \<Longrightarrow> keeps (same_signals P) (emit ev)"
  by (simp add: keeps_def same_signals_def)

lemmas quiet_steps =
  keeps_andThen[OF same_signals_transp] keeps_try_catch[OF same_signals_transp]
  keeps_try_finally[OF same_signals_transp]
  keeps_ret[OF same_signals_reflp] keeps_throw[OF same_signals_reflp]
  keeps_gets[OF same_signals_reflp] keeps_now[OF same_signals_reflp]
  keeps_when[OF same_signals_reflp]
  keeps_runHooks[OF same_signals_reflp same_signals_transp quiet_callback]
  quiet_driver quiet_driver_unit quiet_emit

lemma quiet_execute: "keeps (same_signals P) (execute rt text ps)"
  unfolding execute_def
  by (auto intro!: quiet_steps split: option.splits)

lemma quiet_setCache: "keeps (same_signals P) (setCache rt key d ttl)"
  unfolding setCache_def
  by (auto intro!: quiet_steps quiet_modify)

lemma quiet_createPool: "\<not> P PoolCreated \<Longrightarrow> keeps (same_signals P) createPool"
  unfolding createPool_def
  by (auto intro!: quiet_steps quiet_modify)

lemma quiet_query_uncached:
  assumes "\<not> P PoolCreated" "\<And>a b c d. \<not> P (QueryExecuted a b c d)"
  shows "keeps (same_signals P) (query_uncached rt text ps options timestamp)"
  unfolding query_uncached_def
  by (intro quiet_steps quiet_execute quiet_setCache quiet_createPool quiet_modify assms) simp

lemma quiet_query_catch:
  assumes "\<And>a b c. \<not> P (QueryError a b c)"
  shows "keeps (same_signals P) (query_catch text ps timestamp e)"
  unfolding query_catch_def
  by (intro quiet_steps assms)


section \<open>The cache\<close>

lemma runHooks_frame:
  "runHooks hookName d s = (r, s') \<Longrightarrow> self s' = self s \<and> emitted s' = emitted s"
proof -
  let ?R = "\<lambda>s s' :: 'a state. self s' = self s \<and> emitted s' = emitted s"
  have "keeps ?R (runHooks hookName d)"
    by (rule keeps_runHooks)
       (auto simp: reflp_def transp_def keeps_def callback_def split: prod.splits option.splits)
  then show "runHooks hookName d s = (r, s') \<Longrightarrow> self s' = self s \<and> emitted s' = emitted s"
    by (rule keepsD)
qed

lemma execute_frame:
  "execute rt text ps s = (r, s') \<Longrightarrow> self s' = self s \<and> emitted s' = emitted s"
  by (auto simp: execute_def andThen_def driver_def throw_def split: if_splits option.splits prod.splits)

lemma query_hit:
  assumes "cacheEnabled (self s)" "opt_cache options \<noteq> Some False"
    "cache (self s) (getCacheKey rt text ps) = Some c"
    "date_now rt (ext (world s)) < expiry c"
  shows "query rt text ps options s = (Inr (entry_data c), s\<lparr> emitted := emitted s @ [CacheHit text ps] \<rparr>)"
  using assms by (simp add: query_def getFromCache_def andThen_def try_catch_def ret_def)

lemma getFromCache_expired:
  assumes "cache (self s) key = Some c" "expiry c \<le> date_now rt (ext (world s))"
  shows "getFromCache rt key s = (Inr None, cache_delete key s)"
  using assms by (simp add: getFromCache_def andThen_def ret_def)

lemma getFromCache_absent:
  assumes "cache (self s) key = None"
  shows "getFromCache rt key s = (Inr None, s)"
  using assms by (simp add: getFromCache_def andThen_def ret_def)

lemma query_miss:
  assumes "cache (self s) (getCacheKey rt text ps) = None \<or> \<not> (cacheEnabled (self s) \<and> opt_cache options \<noteq> Some False)"
  shows "query rt text ps options s =
     try_catch (query_uncached rt text ps options (date_now rt (ext (world s))))
               (query_catch text ps (date_now rt (ext (world s)))) s"
  using assms
  by (auto simp: query_def andThen_def try_catch_def getFromCache_absent ret_def)

lemma query_expired:
  assumes "cacheEnabled (self s)" "opt_cache options \<noteq> Some False"
    "cache (self s) (getCacheKey rt text ps) = Some c"
    "expiry c \<le> date_now rt (ext (world s))"
  shows "query rt text ps options s = query rt text ps options (cache_delete (getCacheKey rt text ps) s)"
proof -
  let ?k = "getCacheKey rt text ps"
  have a: "getFromCache rt ?k s = (Inr None, cache_delete ?k s)"
    using assms by (simp add: getFromCache_expired)
  have b: "getFromCache rt ?k (cache_delete ?k s) = (Inr None, cache_delete ?k s)"
    by (rule getFromCache_absent) (simp add: cache_delete_def)
  have c: "cacheEnabled (self (cache_delete ?k s))" "date_now rt (ext (world (cache_delete ?k s))) = date_now rt (ext (world s))"
    using assms by (simp_all add: cache_delete_def)
  show ?thesis
    using assms(1,2) a b c by (simp add: query_def andThen_def try_catch_def)
qed

lemma query_miss_quiet:
  assumes "cache (self s) (getCacheKey rt text ps) = None \<or> \<not> (cacheEnabled (self s) \<and> opt_cache options \<noteq> Some False)"
  shows "filter is_cache_hit (emitted (snd (query rt text ps options s))) = filter is_cache_hit (emitted s)"
proof -
  have "keeps (same_signals is_cache_hit)
     (try_catch (query_uncached rt text ps options (date_now rt (ext (world s))))
               (query_catch text ps (date_now rt (ext (world s)))))"
    by (intro quiet_steps quiet_query_uncached quiet_query_catch) simp_all
  then show ?thesis
    unfolding query_miss[OF assms] by (simp add: keeps_def same_signals_def)
qed

lemma query_catch_fails: "query_catch text ps timestamp e s = (Inr x, s') \<Longrightarrow> False"
  by (auto simp: query_catch_def throw_def elim!: andThen_InrE)

lemma setCache_entry:
  "setCache rt key d ttl s = (r, s') \<Longrightarrow> \<exists>e. cache (self s') key = Some \<lparr> entry_data = d, expiry = e \<rparr>
      \<and> r = Inr ()"
  by (auto simp: setCache_def andThen_def)

lemma query_uncached_stores:
  assumes "query_uncached rt text ps options timestamp s = (Inr rows, s1)"
    "cacheEnabled (self s)" "opt_cache options \<noteq> Some False"
  shows "\<exists>e. cache (self s1) (getCacheKey rt text ps) = Some \<lparr> entry_data = rows, expiry = e \<rparr>"
proof -
  from assms(1) show ?thesis
    unfolding query_uncached_def
    apply (elim andThen_InrE)
    apply (simp add: ret_def)
    apply (drule runHooks_frame)+
    apply (drule execute_frame)
    apply (auto simp: when_p_def createPool_def andThen_def ret_def assms(2,3) split: if_splits dest!: setCache_entry)
    done
qed



subsection \<open>Fields of the helper that a query leaves alone\<close>

lemma field_reflp: "reflp (same_field f)"
  by (simp add: reflp_def same_field_def)

lemma field_transp: "transp (same_field f)"
  by (simp add: transp_def same_field_def)

lemma field_callback: "keeps (same_field f) (callback g)"
  by (auto simp: keeps_def same_field_def callback_def split: prod.splits option.splits)

lemma field_driver: "keeps (same_field f) (driver g)"
  by (auto simp: keeps_def same_field_def driver_def split: prod.splits)

lemma field_driver_unit: "keeps (same_field f) (driver_unit g)"
  by (auto simp: keeps_def same_field_def driver_unit_def split: prod.splits option.splits)

lemma field_modify:
  "(\<And>s. f (self (g s)) = f (self s)) \<Longrightarrow> keeps (same_field f) (modify g)"
  by (simp add: keeps_def same_field_def)

lemma field_emit: "keeps (same_field f) (emit ev)"
  by (simp add: keeps_def same_field_def)

lemmas field_steps =
  keeps_andThen[OF field_transp] keeps_try_catch[OF field_transp]
  keeps_try_finally[OF field_transp]
  keeps_ret[OF field_reflp] keeps_throw[OF field_reflp]
  keeps_gets[OF field_reflp] keeps_now[OF field_reflp]
  keeps_when[OF field_reflp]
  keeps_runHooks[OF field_reflp field_transp field_callback]
  field_driver field_driver_unit field_emit

lemma field_execute: "keeps (same_field f) (execute rt text ps)"
  unfolding execute_def
  by (auto intro!: field_steps split: option.splits)

lemma cacheEnabled_query_uncached:
  "keeps (same_field cacheEnabled)
     (query_uncached rt text ps options timestamp)"
  unfolding query_uncached_def setCache_def createPool_def
  by (intro field_steps field_execute field_modify) simp_all

lemma query_stores:
  assumes "query rt text ps options s = (Inr rows, s1)"
    "cacheEnabled (self s)" "opt_cache options \<noteq> Some False"
  shows "cacheEnabled (self s1)
    \<and> (\<exists>e. cache (self s1) (getCacheKey rt text ps) = Some \<lparr> entry_data = rows, expiry = e \<rparr>)"
proof (cases "cache (self s) (getCacheKey rt text ps)")
  case None
  let ?t = "date_now rt (ext (world s))"
  from assms(1) have "try_catch (query_uncached rt text ps options ?t) (query_catch text ps ?t) s = (Inr rows, s1)"
    using query_miss[of s rt "text" ps options] None by simp
  then have "query_uncached rt text ps options ?t s = (Inr rows, s1)"
    by (auto simp: try_catch_def split: prod.splits sum.splits dest: query_catch_fails)
  then show ?thesis
    using assms(2,3) query_uncached_stores[of rt "text" ps options ?t s rows s1]
      keepsD[OF cacheEnabled_query_uncached, of rt "text" ps options ?t s "Inr rows" s1]
    by (simp add: same_field_def)
next
  case (Some c)
  show ?thesis
  proof (cases "date_now rt (ext (world s)) < expiry c")
    case True
    from query_hit[OF assms(2,3) Some True] assms(1,2) Some show ?thesis
      by (auto intro: exI[of _ "expiry c"])
  next
    case False
    let ?s = "cache_delete (getCacheKey rt text ps) s"
    let ?t = "date_now rt (ext (world ?s))"
    have n: "cache (self ?s) (getCacheKey rt text ps) = None" by (simp add: cache_delete_def)
    have e: "cacheEnabled (self ?s)" using assms(2) by (simp add: cache_delete_def)
    from False have "query rt text ps options s = query rt text ps options ?s"
      using query_expired[OF assms(2,3) Some] by simp
    with assms(1) have "try_catch (query_uncached rt text ps options ?t) (query_catch text ps ?t) ?s = (Inr rows, s1)"
      using query_miss[of ?s rt "text" ps options] n by simp
    then have "query_uncached rt text ps options ?t ?s = (Inr rows, s1)"
      by (auto simp: try_catch_def split: prod.splits sum.splits dest: query_catch_fails)
    then show ?thesis
      using e assms(3) query_uncached_stores[of rt "text" ps options ?t ?s rows s1]
        keepsD[OF cacheEnabled_query_uncached, of rt "text" ps options ?t ?s "Inr rows" s1]
        by (simp add: same_field_def)
  qed
qed

lemmas demo_defs =
  demo_state_def demo_config_def demo_rt_def demo_execute_def new_helper_def no_options_def

lemmas run_defs =
  query_def query_uncached_def query_catch_def getFromCache_def setCache_def getCacheKey_def
  execute_def driver_def runHooks_def hooks_lookup_def andThen_def try_catch_def ret_def throw_def
  callback_def cache_delete_def

lemma demo_first_query:
  "query demo_rt ''SELECT 1'' [] no_options demo_state =
     (Inr (Rows [[(''id'', JNum 1)]]),
      demo_state\<lparr> self := (self demo_state)\<lparr> cache := (cache (self demo_state))
                      (''SELECT 1:[]'' := Some \<lparr> entry_data = Rows [[(''id'', JNum 1)]], expiry = 6 \<rparr>) \<rparr>,
                  emitted := [PoolCreated, QueryExecuted ''SELECT 1'' [] 1 (JNum 1)],
                  world := \<lparr> heap = [], ext = [''execute SELECT 1''] \<rparr> \<rparr>)"
  by (simp add: run_defs demo_defs)

lemma date_now_demo: "date_now demo_rt x = int (length x)"
  by (simp add: demo_rt_def)

section \<open>Transactions\<close>

lemmas transaction_steps =
  try_finally_def try_catch_def andThen_def user_def driver_unit_def release_def when_p_def
  ret_def throw_def

text \<open>
  C4 (as amended). Let the transaction have begun on connection \<open>c\<close>. The last
  step in every case is the release of \<open>c\<close>, which runs exactly when the helper
  has a pool; a standalone connection is not released.
  If the callback fails with \<open>e\<close>: rollback runs; when it succeeds, a rolled-back
  signal with the message of \<open>e\<close> is emitted and the caller receives the error
  \<open>Transaction failed:\<close> followed by that message; when rollback itself fails, the
  caller receives the rollback's error and no signal is emitted.
  If the callback succeeds: commit runs; when it succeeds, a committed signal is
  emitted and the callback's value returned; when commit fails with \<open>e\<close>, the
  outcome is that of a callback failing with \<open>e\<close>.
\<close>

theorem transaction_outcomes:
  assumes "beginTransaction rt s = (Inr c, s0)"
  shows
    "(cb c (world s0) = (Inl e, w1) \<and> conn_rollback rt c (ext w1) = (None, x2) \<longrightarrow>
        transaction rt cb s =
          (Inl (Error (''Transaction failed: '' @ message e)),
           s0\<lparr> emitted := emitted s0 @ [TransactionRolledBack (threadId c) (message e)],
               world := w1\<lparr> ext := (if pool (self s0) then conn_release rt c x2 else x2) \<rparr> \<rparr>))
   \<and> (cb c (world s0) = (Inl e, w1) \<and> conn_rollback rt c (ext w1) = (Some e', x2) \<longrightarrow>
        transaction rt cb s =
          (Inl e', s0\<lparr> world := w1\<lparr> ext := (if pool (self s0) then conn_release rt c x2 else x2) \<rparr> \<rparr>))
   \<and> (cb c (world s0) = (Inr v, w1) \<and> conn_commit rt c (ext w1) = (None, x2) \<longrightarrow>
        transaction rt cb s =
          (Inr v,
           s0\<lparr> emitted := emitted s0 @ [TransactionCommitted (threadId c)],
               world := w1\<lparr> ext := (if pool (self s0) then conn_release rt c x2 else x2) \<rparr> \<rparr>))
   \<and> (cb c (world s0) = (Inr v, w1) \<and> conn_commit rt c (ext w1) = (Some e, x2)
        \<and> conn_rollback rt c x2 = (None, x3) \<longrightarrow>
        transaction rt cb s =
          (Inl (Error (''Transaction failed: '' @ message e)),
           s0\<lparr> emitted := emitted s0 @ [TransactionRolledBack (threadId c) (message e)],
               world := w1\<lparr> ext := (if pool (self s0) then conn_release rt c x3 else x3) \<rparr> \<rparr>))
   \<and> (cb c (world s0) = (Inr v, w1) \<and> conn_commit rt c (ext w1) = (Some e, x2)
        \<and> conn_rollback rt c x2 = (Some e', x3) \<longrightarrow>
        transaction rt cb s =
          (Inl e', s0\<lparr> world := w1\<lparr> ext := (if pool (self s0) then conn_release rt c x3 else x3) \<rparr> \<rparr>))"
proof -
  have t: "transaction rt cb s =
       try_finally
         (try_catch
            (andThen (user (cb c)) (\<lambda>r.
             andThen (driver_unit (conn_commit rt c)) (\<lambda>_.
             andThen (emit (TransactionCommitted (threadId c))) (\<lambda>_.
             ret r))))
            (\<lambda>error.
             andThen (driver_unit (conn_rollback rt c)) (\<lambda>_.
             andThen (emit (TransactionRolledBack (threadId c) (message error))) (\<lambda>_.
             throw (Error (''Transaction failed: '' @ message error))))))
         (andThen (gets (\<lambda>s. pool (self s))) (\<lambda>p.
          when_p p (release rt c))) s0"
    using assms by (simp add: transaction_def)
  show ?thesis
    unfolding t by (simp add: transaction_steps)
qed

text \<open>
  The claim as stated fails on a helper with a standalone connection and no pool:
  the callback fails, rollback runs, and the connection is not released; the error
  raised is a new one built from the message of the original.
\<close>

theorem transaction_outcomes_counterexample:
  "transaction demo_rt failing_callback demo_state_connected =
     (Inl (Error ''Transaction failed: boom''),
      demo_state_connected
        \<lparr> emitted := [Connected 7, TransactionStarted 7, TransactionRolledBack 7 ''boom''],
          world := \<lparr> heap = [], ext = [''createConnection'', ''beginTransaction'', ''rollback''] \<rparr> \<rparr>)
   \<and> ''release'' \<notin> set [''createConnection'', ''beginTransaction'', ''rollback'']
   \<and> Error ''Transaction failed: boom'' \<noteq> Error ''boom''"
  by (simp add: transaction_def beginTransaction_def connect_def transaction_steps
      demo_state_connected_def demo_rt_def new_helper_def demo_config_def failing_callback_def)

theorem transaction_outcomes_witness:
  "beginTransaction demo_rt demo_state =
     (Inr (Conn 3), demo_state\<lparr> emitted := [PoolCreated, TransactionStarted 3],
                       world := \<lparr> heap = [], ext = [''getConnection'', ''beginTransaction''] \<rparr> \<rparr>)
   \<and> failing_callback (Conn 3) \<lparr> heap = [], ext = [''getConnection'', ''beginTransaction''] \<rparr>
       = (Inl (Error ''boom''), \<lparr> heap = [], ext = [''getConnection'', ''beginTransaction''] \<rparr>)
   \<and> conn_rollback demo_rt (Conn 3) [''getConnection'', ''beginTransaction'']
       = (None, [''getConnection'', ''beginTransaction'', ''rollback''])
   \<and> transaction demo_rt failing_callback demo_state =
     (Inl (Error ''Transaction failed: boom''),
      demo_state
        \<lparr> emitted := [PoolCreated, TransactionStarted 3, TransactionRolledBack 3 ''boom''],
          world := \<lparr> heap = [], ext = [''getConnection'', ''beginTransaction'', ''rollback'', ''release''] \<rparr> \<rparr>)"
proof -
  let ?s0 = "demo_state\<lparr> emitted := [PoolCreated, TransactionStarted 3],
                       world := \<lparr> heap = [], ext = [''getConnection'', ''beginTransaction''] \<rparr> \<rparr>"
  have b: "beginTransaction demo_rt demo_state = (Inr (Conn 3), ?s0)"
    by (simp add: beginTransaction_def andThen_def ret_def driver_def driver_unit_def
        demo_state_def demo_rt_def new_helper_def demo_config_def)
  have c: "failing_callback (Conn 3) (world ?s0) = (Inl (Error ''boom''), world ?s0)"
    by (simp add: failing_callback_def)
  have r: "conn_rollback demo_rt (Conn 3) (ext (world ?s0))
       = (None, [''getConnection'', ''beginTransaction'', ''rollback''])"
    by (simp add: demo_rt_def)
  have p: "pool (self ?s0)" by (simp add: demo_state_def)
  have "transaction demo_rt failing_callback demo_state =
     (Inl (Error ''Transaction failed: boom''),
      demo_state
        \<lparr> emitted := [PoolCreated, TransactionStarted 3, TransactionRolledBack 3 ''boom''],
          world := \<lparr> heap = [], ext = [''getConnection'', ''beginTransaction'', ''rollback'', ''release''] \<rparr> \<rparr>)"
    using transaction_outcomes[OF b, where cb = failing_callback and e = "Error ''boom''"
        and ?w1.0 = "world ?s0" and ?x2.0 = "[''getConnection'', ''beginTransaction'', ''rollback'']"]
      c r p
    by (simp add: demo_rt_def)
  then show ?thesis using b c r by simp
qed

section \<open>Batch insert\<close>

subsection \<open>The number of chunks\<close>

lemma ceil_nat:
  assumes "0 < c"
  shows "(n + c - 1) div c = (if n mod c = 0 then n div c else Suc (n div c))"
proof -
  define q r where "q = n div c" and "r = n mod c"
  have r: "r < c" using assms by (simp add: r_def)
  have n: "n = q * c + r" by (simp add: q_def r_def)
  show ?thesis
  proof (cases "r = 0")
    case True
    have "(q * c + (c - 1)) div c = q + (c - 1) div c"
      using assms by (intro div_mult_self3) simp
    moreover have "(c - 1) div c = 0" using assms by simp
    ultimately have "(q * c + (c - 1)) div c = q" by simp
    moreover have "n + c - 1 = q * c + (c - 1)" using n True assms by simp
    ultimately show ?thesis using True by (simp add: q_def r_def)
  next
    case False
    then have e: "n + c - 1 = Suc q * c + (r - 1)" using n by simp
    have "(Suc q * c + (r - 1)) div c = Suc q + (r - 1) div c"
      using assms by (intro div_mult_self3) simp
    moreover have "(r - 1) div c = 0" using r by simp
    ultimately have d: "(Suc q * c + (r - 1)) div c = Suc q" by (simp only: add_0_right)
    have "(n + c - 1) div c = Suc q" by (simp only: e d)
    then show ?thesis using False by (simp add: q_def r_def)
  qed
qed

lemma ceil_int:
  assumes "0 < c"
  shows "- ((- int n) div int c) = int ((n + c - 1) div c)"
proof -
  have "(- int n) div int c = (if int n mod int c = 0 then - (int n div int c) else - (int n div int c) - 1)"
    using assms by (simp add: zdiv_zminus1_eq_if)
  moreover have "int n mod int c = int (n mod c)" "int n div int c = int (n div c)"
    by (simp_all add: zmod_int zdiv_int)
  moreover have "int ((n + c - 1) div c) = (if n mod c = 0 then int (n div c) else int (n div c) + 1)"
    by (simp only: ceil_nat[OF assms]) simp
  ultimately show ?thesis by simp
qed

lemma ceil_div_pos:
  assumes "0 < c"
  shows "ceil_div (Num (int n)) (int c) = Num (int ((n + c - 1) div c))"
  using assms ceil_int[OF assms, of n] by simp

lemma chunk_index:
  assumes "0 < c" "0 < n"
  shows "((k::nat) < (n + c - 1) div c) = (k * c < n)"
proof -
  have "(k < (n + c - 1) div c) = (Suc k \<le> (n + c - 1) div c)" by arith
  also have "\<dots> = (Suc k * c \<le> n + c - 1)"
    using assms by (simp only: less_eq_div_iff_mult_less_eq)
  also have "\<dots> = (k * c < n)" using assms by (simp add: algebra_simps) arith
  finally show ?thesis .
qed

lemma chunks_cover:
  assumes "0 < c"
  shows "(n::nat) \<le> ((n + c - 1) div c) * c"
proof (cases "0 < n")
  case True
  from chunk_index[OF assms True, of "(n + c - 1) div c"]
  have "\<not> ((n + c - 1) div c * c < n)" by simp
  then show ?thesis by simp
next
  case False
  then show ?thesis by simp
qed


subsection \<open>Chunks\<close>

lemma chunks_length: "length (chunks c xs) = (length xs + c - 1) div c"
  by (simp add: chunks_def)

lemma chunks_nth:
  "k < (length xs + c - 1) div c \<Longrightarrow> chunks c xs ! k = take c (drop (k * c) xs)"
  by (simp add: chunks_def)

lemma concat_take:
  "concat (map (\<lambda>k. take c (drop (k * c) xs)) [0 ..< m]) = take (m * c) xs"
proof (induction m)
  case 0
  then show ?case by simp
next
  case (Suc m)
  have "take (m * c) xs @ take c (drop (m * c) xs) = take (m * c + c) xs"
    by (simp add: take_add)
  with Suc show ?case by (simp add: add.commute)
qed

lemma chunks_concat: "0 < c \<Longrightarrow> concat (chunks c xs) = xs"
  using chunks_cover[of c "length xs"] by (simp add: chunks_def concat_take)

lemma chunk_nonempty:
  assumes "0 < c" "k < (length xs + c - 1) div c"
  shows "chunks c xs ! k \<noteq> []"
proof -
  have n: "0 < length xs"
  proof (rule ccontr)
    assume "\<not> 0 < length xs"
    with assms show False by simp
  qed
  from chunk_index[OF assms(1) n, of k] assms(2) have "k * c < length xs" by simp
  with assms show ?thesis by (simp add: chunks_nth)
qed

lemma chunk_full:
  assumes "0 < c" "Suc k < (length xs + c - 1) div c"
  shows "length (chunks c xs ! k) = c"
proof -
  have n: "0 < length xs"
  proof (rule ccontr)
    assume "\<not> 0 < length xs"
    with assms show False by simp
  qed
  from chunk_index[OF assms(1) n, of "Suc k"] assms(2) have "k * c + c < length xs"
    by (simp add: add.commute)
  moreover from assms(2) have "k < (length xs + c - 1) div c" by simp
  ultimately show ?thesis by (simp add: chunks_nth)
qed

lemma js_slice_chunk:
  "js_slice (int i * int c) (min (int i * int c + int c) (int (length xs))) xs = take c (drop (i * c) xs)"
proof -
  let ?n = "length xs"
  have s: "int i * int c = int (i * c)" by simp
  have m: "nat (min (int x) (int y)) = min x y" for x y by (simp add: min_def)
  have a: "int i * int c + int c = int (i * c + c)" by simp
  have e: "min (int i * int c + int c) (int ?n) = int (min (i * c + c) ?n)"
    by (simp only: a of_nat_min)
  have "js_slice (int (i * c)) (int (min (i * c + c) ?n)) xs
      = take (min (i * c + c) ?n - min (i * c) ?n) (drop (min (i * c) ?n) xs)"
    by (simp add: js_slice_def Let_def nat_diff_distrib' m del: of_nat_mult of_nat_add)
  also have "\<dots> = take c (drop (i * c) xs)"
  proof (cases "i * c \<le> ?n")
    case True
    then have m: "min (i * c) ?n = i * c" by simp
    show ?thesis
    proof (cases "i * c + c \<le> ?n")
      case True
      then show ?thesis by (simp add: m)
    next
      case False
      then have "min (i * c + c) ?n - i * c = ?n - i * c" by simp
      moreover have "length (drop (i * c) xs) \<le> c" using False by simp
      ultimately show ?thesis by (simp add: m)
    qed
  next
    case False
    then show ?thesis by simp
  qed
  finally have f: "js_slice (int (i * c)) (int (min (i * c + c) ?n)) xs = take c (drop (i * c) xs)" .
  show ?thesis by (simp only: e, simp only: s, rule f)
qed


subsection \<open>The loop inserts the chunks in order\<close>

lemma loop_is_chunks_aux:
  assumes "0 < c" and B: "B = (length items + c - 1) div c"
  shows "batchInsert_loop rt t items (int c) i acc s =
     insert_chunks rt t B c (length items) (Suc i) (drop i (chunks c items)) acc s"
proof (induction "B - i" arbitrary: i acc s)
  case 0
  have cd: "ceil_div (Num (int (length items))) (int c) = Num (int B)"
    by (simp only: B ceil_div_pos[OF assms(1)])
  from 0 have "\<not> int_less (int i) (ceil_div (Num (int (length items))) (int c))"
    by (simp only: cd) simp
  then have "batchInsert_loop rt t items (int c) i acc s = (Inr acc, s)"
    by (subst batchInsert_loop.simps) (simp add: Let_def del: ceil_div.simps)
  moreover have "length (chunks c items) = B" by (simp only: chunks_length B)
  with 0 have "drop i (chunks c items) = []" by simp
  ultimately show ?case by (simp add: ret_def)
next
  case (Suc m)
  let ?n = "length items"
  let ?ch = "take c (drop (i * c) items)"
  have cd: "ceil_div (Num (int ?n)) (int c) = Num (int B)"
    by (simp only: B ceil_div_pos[OF assms(1)])
  from Suc.hyps(2) have i: "i < B" by simp
  then have g: "int_less (int i) (ceil_div (Num (int ?n)) (int c))"
    by (simp only: cd) simp
  have cl: "length (chunks c items) = B" by (simp only: chunks_length B)
  have cn: "chunks c items ! i = ?ch" using i unfolding B by (rule chunks_nth)
  have d: "drop i (chunks c items) = ?ch # drop (Suc i) (chunks c items)"
    using i cl cn by (simp add: Cons_nth_drop_Suc[symmetric])
  have e: "min (int i * int c + int c) (int ?n) = int (min (Suc i * c) ?n)"
  proof -
    have "int i * int c + int c = int (Suc i * c)" by (simp add: algebra_simps)
    then show ?thesis by (simp only: of_nat_min)
  qed
  have ih: "batchInsert_loop rt t items (int c) (Suc i) acc' s' =
     insert_chunks rt t B c ?n (Suc (Suc i)) (drop (Suc i) (chunks c items)) acc' s'" for acc' s'
    using Suc.hyps(2) by (intro Suc.hyps(1)) simp
  have step: "batchInsert_loop rt t items (int c) i acc s =
      (case insertMany rt t ?ch False s of
         (Inl err, s1) \<Rightarrow> (Inl err, s1)
       | (Inr x, s1) \<Rightarrow>
           batchInsert_loop rt t items (int c) (Suc i) (acc @ [x])
             (s1\<lparr> emitted := emitted s1 @
                [BatchProgress (int i + 1) (Num (int B)) (min (int i * int c + int c) (int ?n))] \<rparr>))"
    using g
    by (subst batchInsert_loop.simps)
       (simp add: Let_def js_slice_chunk cd del: of_nat_mult of_nat_add ceil_div.simps)
  show ?case
  proof (cases "insertMany rt t ?ch False s")
    case (Pair r s1)
    show ?thesis
    proof (cases r)
      case (Inl err)
      with Pair show ?thesis
        by (simp only: step d insert_chunks.simps andThen_def prod.case sum.case)
    next
      case (Inr x)
      have "batchInsert_loop rt t items (int c) i acc s =
          batchInsert_loop rt t items (int c) (Suc i) (acc @ [x])
            (s1\<lparr> emitted := emitted s1 @ [BatchProgress (int i + 1) (Num (int B)) (int (min (Suc i * c) ?n))] \<rparr>)"
        by (simp only: step Pair Inr prod.case sum.case e)
      also have "\<dots> = insert_chunks rt t B c ?n (Suc i) (drop i (chunks c items)) acc s"
        using Pair Inr by (simp add: ih d andThen_def emit_def modify_def add.commute)
      finally show ?thesis .
    qed
  qed
qed

lemmas loop_is_chunks = loop_is_chunks_aux[OF _ refl]

lemma batchInsert_is_chunks:
  assumes "0 < c" "items \<noteq> []"
  shows "batchInsert rt t items (Some (int c)) =
     andThen (insert_chunks rt t ((length items + c - 1) div c) c (length items) 1 (chunks c items) [])
       (\<lambda>rs. ret \<lparr> totalBatches = Num (int ((length items + c - 1) div c)),
                     totalInserted = int (length items), results = rs \<rparr>)"
proof
  fix s :: "'a state"
  have "batchInsert_loop rt t items (int c) 0 [] =
      insert_chunks rt t ((length items + c - 1) div c) c (length items) 1 (chunks c items) []"
    using loop_is_chunks[OF assms(1), of rt t items 0 "[]"] by (intro ext) simp
  then show "batchInsert rt t items (Some (int c)) s =
     andThen (insert_chunks rt t ((length items + c - 1) div c) c (length items) 1 (chunks c items) [])
       (\<lambda>rs. ret \<lparr> totalBatches = Num (int ((length items + c - 1) div c)),
                     totalInserted = int (length items), results = rs \<rparr>) s"
    using assms by (simp add: batchInsert_def Let_def ceil_div_pos del: ceil_div.simps)
qed


subsection \<open>Progress signals\<close>

lemma quiet_read_obj: "keeps (same_signals P) (read_obj r)"
  by (simp add: keeps_def same_signals_def read_obj_def)

lemma quiet_alloc: "keeps (same_signals P) (alloc ob)"
  by (simp add: keeps_def same_signals_def alloc_def)

lemma quiet_addTimestamps: "keeps (same_signals P) (addTimestamps rt d isUpdate)"
  unfolding addTimestamps_def write_prop_def
  by (intro quiet_steps keeps_if quiet_read_obj quiet_alloc quiet_modify) simp_all

lemma keeps_map_prog:
  assumes "reflp R" "transp R" "\<And>x. keeps R (f x)"
  shows "keeps R (map_prog f xs)"
proof (induction xs)
  case Nil
  show ?case unfolding map_prog.simps by (rule keeps_ret[OF assms(1)])
next
  case (Cons x xs)
  show ?case unfolding map_prog.simps
    by (intro keeps_andThen assms Cons.IH keeps_ret)
qed

lemma quiet_query:
  assumes "\<not> P PoolCreated" "\<And>a b. \<not> P (CacheHit a b)"
    "\<And>a b c d. \<not> P (QueryExecuted a b c d)" "\<And>a b c. \<not> P (QueryError a b c)"
  shows "keeps (same_signals P) (query rt text ps options)"
  unfolding query_def getFromCache_def
  by (intro quiet_steps keeps_if keeps_case_option quiet_query_uncached quiet_query_catch
        quiet_modify assms)
     (simp add: cache_delete_def)

lemma quiet_insertMany: "keeps (same_signals is_progress) (insertMany rt t ch skip)"
  unfolding insertMany_def
  by (intro quiet_steps keeps_if quiet_read_obj quiet_addTimestamps quiet_query
        keeps_map_prog same_signals_reflp same_signals_transp) simp_all

lemma insert_chunks_result:
  "insert_chunks rt t B c n k chs acc s = (Inr rs, s') \<Longrightarrow>
     length rs = length acc + length chs
     \<and> filter is_progress (emitted s') = filter is_progress (emitted s)
         @ map (\<lambda>j. BatchProgress (int j) (Num (int B)) (int (min (j * c) n))) [k ..< k + length chs]"
proof (induction chs arbitrary: k acc s)
  case Nil
  then show ?case by (simp add: ret_def)
next
  case (Cons ch chs)
  from Cons.prems obtain r s1 where
    m: "insertMany rt t ch False s = (Inr r, s1)"
    and rest: "insert_chunks rt t B c n (Suc k) chs (acc @ [r])
        (s1\<lparr> emitted := emitted s1 @ [BatchProgress (int k) (Num (int B)) (int (min (k * c) n))] \<rparr>)
        = (Inr rs, s')"
    by (auto simp: emit_def modify_def elim!: andThen_InrE)
  from m have q: "filter is_progress (emitted s1) = filter is_progress (emitted s)"
    using keepsD[OF quiet_insertMany, of rt t ch False s "Inr r" s1] by (simp add: same_signals_def)
  have "[k ..< k + length (ch # chs)] = k # [Suc k ..< k + length (ch # chs)]"
    by (rule upt_conv_Cons) simp
  moreover have "k + length (ch # chs) = Suc k + length chs" by simp
  ultimately have u: "[k ..< k + length (ch # chs)] = k # [Suc k ..< Suc k + length chs]"
    by (simp only:)
  from Cons.IH[OF rest] q show ?case
    by (simp only: u) simp
qed

lemma batchInsert_result:
  assumes "0 < c" "items \<noteq> []"
    and "batchInsert rt t items (Some (int c)) s = (Inr res, s')"
    and B: "B = (length items + c - 1) div c"
  shows "totalBatches res = Num (int B) \<and> totalInserted res = int (length items)
     \<and> length (results res) = B
     \<and> filter is_progress (emitted s') = filter is_progress (emitted s)
         @ map (\<lambda>k. BatchProgress (int k) (Num (int B)) (int (min (k * c) (length items)))) [1 ..< Suc B]"
proof -
  from assms(3) obtain rs where
    i: "insert_chunks rt t B c (length items) 1 (chunks c items) [] s = (Inr rs, s')"
    and r: "res = \<lparr> totalBatches = Num (int B), totalInserted = int (length items), results = rs \<rparr>"
    unfolding batchInsert_is_chunks[OF assms(1,2)] B[symmetric]
    by (auto simp: ret_def elim!: andThen_InrE)
  have l: "length (chunks c items) = B" by (simp only: chunks_length B)
  from insert_chunks_result[OF i] l r show ?thesis by simp
qed


lemma batchInsert_5000:
  assumes "length items = 5000"
    and "batchInsert rt t items (Some 1000) s = (Inr res, s')"
  shows "totalInserted res = 5000 \<and> totalBatches res = Num 5
     \<and> filter is_progress (emitted s') = filter is_progress (emitted s)
         @ [BatchProgress 1 (Num 5) 1000, BatchProgress 2 (Num 5) 2000, BatchProgress 3 (Num 5) 3000,
            BatchProgress 4 (Num 5) 4000, BatchProgress 5 (Num 5) 5000]"
proof -
  have n: "items \<noteq> []" using assms(1) by auto
  have c: "(0::nat) < 1000" by simp
  have B: "(5::nat) = (length items + 1000 - 1) div 1000" by (simp add: assms(1))
  have u: "[1 ..< Suc 5] = [1, 2, 3, 4, 5]" by (simp add: upt_rec)
  from assms(2) have "batchInsert rt t items (Some (int 1000)) s = (Inr res, s')" by simp
  from batchInsert_result[OF c n this B] show ?thesis
    by (simp only: u assms(1)) simp
qed

lemmas eval_defs =
  insertMany_def addTimestamps_def read_obj_def alloc_def write_prop_def when_p_def
  query_def query_uncached_def query_catch_def getFromCache_def setCache_def getCacheKey_def
  execute_def driver_def runHooks_def hooks_lookup_def andThen_def try_catch_def ret_def throw_def
  callback_def cache_delete_def emit_def modify_def gets_def now_def
  demo_state_rows_def demo_state_def demo_config_def demo_rt_def demo_execute_def new_helper_def
  no_options_def insertMany_sql_def placeholders_def obj_get_def truthy_prop_def
  object_prototype_names_def

lemma demo_chunks: "chunks 2 [0, 1, 2 :: nat] = [[0, 1], [2]]"
  by (simp add: chunks_def upt_rec)

lemma demo_insert_chunks_fst:
  "fst (insert_chunks demo_rt ''users'' 2 2 3 1 [[0, 1], [2]] [] demo_state_rows)
     = Inr [[(''insertId'', JNum 1), (''affectedRows'', JNum 1)],
            [(''insertId'', JNum 1), (''affectedRows'', JNum 1)]]"
  by (simp add: eval_defs)


text \<open>
  C8. For a non-empty array of \<open>n\<close> items and a chunk size \<open>c > 0\<close>, \<open>batchInsert\<close>
  is the sequential run over \<open>chunks c items\<close>: each chunk goes through one
  \<open>insertMany\<close>, followed by its progress signal, before the next chunk starts, and
  the first failing chunk ends the run with its error. The chunks are
  \<open>ceil(n / c)\<close> many, consecutive (chunk \<open>k\<close>, counted from \<open>0\<close>, is the \<open>c\<close> items from
  position \<open>k * c\<close>), none is empty, all but the last have \<open>c\<close> items, and together
  they are the array. When \<open>batchInsert\<close> returns a result, \<open>totalBatches\<close> is
  \<open>ceil(n / c)\<close>, \<open>totalInserted\<close> is \<open>n\<close>, there is one result per chunk, and the
  progress signals it emitted are exactly those with \<open>current\<close> from \<open>1\<close> to
  \<open>ceil(n / c)\<close>, that total, and \<open>processedRows = min (k * c) n\<close>.
\<close>

theorem batchInsert_chunks:
  assumes "0 < c" "items \<noteq> []"
  shows "batchInsert rt t items (Some (int c)) =
       andThen (insert_chunks rt t ((length items + c - 1) div c) c (length items) 1 (chunks c items) [])
         (\<lambda>rs. ret \<lparr> totalBatches = Num (int ((length items + c - 1) div c)),
                       totalInserted = int (length items), results = rs \<rparr>)
     \<and> length (chunks c items) = (length items + c - 1) div c
     \<and> concat (chunks c items) = items
     \<and> (\<forall>k < (length items + c - 1) div c.
           chunks c items ! k = take c (drop (k * c) items)
           \<and> chunks c items ! k \<noteq> []
           \<and> (Suc k < (length items + c - 1) div c \<longrightarrow> length (chunks c items ! k) = c))
     \<and> (\<forall>s res s'. batchInsert rt t items (Some (int c)) s = (Inr res, s') \<longrightarrow>
           totalBatches res = Num (int ((length items + c - 1) div c))
           \<and> totalInserted res = int (length items)
           \<and> length (results res) = (length items + c - 1) div c
           \<and> filter is_progress (emitted s') = filter is_progress (emitted s)
               @ map (\<lambda>k. BatchProgress (int k) (Num (int ((length items + c - 1) div c)))
                          (int (min (k * c) (length items))))
                   [1 ..< Suc ((length items + c - 1) div c)])"
proof (intro conjI allI impI)
  show "batchInsert rt t items (Some (int c)) =
       andThen (insert_chunks rt t ((length items + c - 1) div c) c (length items) 1 (chunks c items) [])
         (\<lambda>rs. ret \<lparr> totalBatches = Num (int ((length items + c - 1) div c)),
                       totalInserted = int (length items), results = rs \<rparr>)"
    by (rule batchInsert_is_chunks[OF assms])
  show "length (chunks c items) = (length items + c - 1) div c" by (rule chunks_length)
  show "concat (chunks c items) = items" by (rule chunks_concat[OF assms(1)])
next
  fix k assume "k < (length items + c - 1) div c"
  then show "chunks c items ! k = take c (drop (k * c) items)" by (rule chunks_nth)
next
  fix k assume "k < (length items + c - 1) div c"
  with assms(1) show "chunks c items ! k \<noteq> []" by (rule chunk_nonempty)
next
  fix k assume "Suc k < (length items + c - 1) div c"
  with assms(1) show "length (chunks c items ! k) = c" by (rule chunk_full)
next
  fix s res s' assume r: "batchInsert rt t items (Some (int c)) s = (Inr res, s')"
  note R = batchInsert_result[OF assms r refl]
  from R show "totalBatches res = Num (int ((length items + c - 1) div c))" by blast
  from R show "totalInserted res = int (length items)" by blast
  from R show "length (results res) = (length items + c - 1) div c" by blast
  from R show "filter is_progress (emitted s') = filter is_progress (emitted s)
               @ map (\<lambda>k. BatchProgress (int k) (Num (int ((length items + c - 1) div c)))
                          (int (min (k * c) (length items))))
                   [1 ..< Suc ((length items + c - 1) div c)]" by blast
qed

theorem batchInsert_chunks_witness:
  "(0::nat) < 2 \<and> [0, 1, 2 :: nat] \<noteq> []
   \<and> chunks 2 [0, 1, 2 :: nat] = [[0, 1], [2]]
   \<and> fst (batchInsert demo_rt ''users'' [0, 1, 2] (Some 2) demo_state_rows)
       = Inr \<lparr> totalBatches = Num 2, totalInserted = 3,
               results = [[(''insertId'', JNum 1), (''affectedRows'', JNum 1)],
                          [(''insertId'', JNum 1), (''affectedRows'', JNum 1)]] \<rparr>
   \<and> filter is_progress (emitted (snd (batchInsert demo_rt ''users'' [0, 1, 2] (Some 2) demo_state_rows)))
       = [BatchProgress 1 (Num 2) 2, BatchProgress 2 (Num 2) 3]"
proof -
  have a: "(0::nat) < 2" by simp
  have b: "[0, 1, 2 :: nat] \<noteq> []" by simp
  note T = batchInsert_chunks[OF a b, where rt = demo_rt and t = "''users''"]
  have L: "length [0, 1, 2 :: nat] = 3" by simp
  have B: "(3 + 2 - 1) div 2 = (2::nat)" by simp
  from T have "batchInsert demo_rt ''users'' [0, 1, 2] (Some (int 2)) =
       andThen (insert_chunks demo_rt ''users'' ((length [0, 1, 2 :: nat] + 2 - 1) div 2) 2
                  (length [0, 1, 2 :: nat]) 1 (chunks 2 [0, 1, 2]) [])
         (\<lambda>rs. ret \<lparr> totalBatches = Num (int ((length [0, 1, 2 :: nat] + 2 - 1) div 2)),
                       totalInserted = int (length [0, 1, 2 :: nat]), results = rs \<rparr>)"
    by (rule conjunct1)
  then have e: "batchInsert demo_rt ''users'' [0, 1, 2] (Some 2) =
       andThen (insert_chunks demo_rt ''users'' 2 2 3 1 [[0, 1], [2]] [])
         (\<lambda>rs. ret \<lparr> totalBatches = Num 2, totalInserted = 3, results = rs \<rparr>)"
    by (simp only: L B demo_chunks of_nat_numeral)
  have f: "fst (batchInsert demo_rt ''users'' [0, 1, 2] (Some 2) demo_state_rows)
       = Inr \<lparr> totalBatches = Num 2, totalInserted = 3,
               results = [[(''insertId'', JNum 1), (''affectedRows'', JNum 1)],
                          [(''insertId'', JNum 1), (''affectedRows'', JNum 1)]] \<rparr>"
    unfolding e using demo_insert_chunks_fst
    by (cases "insert_chunks demo_rt ''users'' 2 2 3 1 [[0, 1], [2]] [] demo_state_rows")
       (simp add: andThen_def ret_def)
  obtain res s' where r: "batchInsert demo_rt ''users'' [0, 1, 2] (Some (int 2)) demo_state_rows = (Inr res, s')"
    using f by (cases "batchInsert demo_rt ''users'' [0, 1, 2] (Some 2) demo_state_rows") simp
  from T r have "filter is_progress (emitted s') = filter is_progress (emitted demo_state_rows)
               @ map (\<lambda>k. BatchProgress (int k) (Num (int ((length [0, 1, 2 :: nat] + 2 - 1) div 2)))
                          (int (min (k * 2) (length [0, 1, 2 :: nat]))))
                   [1 ..< Suc ((length [0, 1, 2 :: nat] + 2 - 1) div 2)]"
    by blast
  then have "filter is_progress (emitted s') = [BatchProgress 1 (Num 2) 2, BatchProgress 2 (Num 2) 3]"
    by (simp add: demo_state_rows_def demo_state_def upt_rec)
  with r have g: "filter is_progress (emitted (snd (batchInsert demo_rt ''users'' [0, 1, 2] (Some 2) demo_state_rows)))
       = [BatchProgress 1 (Num 2) 2, BatchProgress 2 (Num 2) 3]"
    by simp
  show ?thesis using a b demo_chunks f g by simp
qed

section \<open>Placeholder order\<close>











lemma run_inline_snoc [simp]:
  "run_inline render (cs @ [c]) b = inline_call render c (run_inline render cs b)"
  by (simp add: run_inline_def)










section \<open>The OR variant of a predicate\<close>

lemma js_join_snoc: "xs \<noteq> [] \<Longrightarrow> js_join sep (xs @ [x]) = js_join sep xs @ sep @ x"
  by (induction sep xs rule: js_join.induct) simp_all

text \<open>
  What \<open>orWhere\<close> appends. After a fragment it is \<open>OR column operator ?\<close>, which
  \<open>toSQL\<close> joins to the fragments before it with \<open>AND\<close> like any other, so that the
  WHERE clause continues with \<open>AND OR column operator ?\<close>. On an empty list it is
  the fragment of \<open>where\<close> after one blank. The bound value is the one \<open>where\<close>
  binds, and there is no failing branch.
\<close>

lemma orWhere_fragment:
  "(b_where b \<noteq> [] \<longrightarrow>
      b_where (orWhere column args b)
        = b_where b @ [''OR '' @ column @ '' '' @ operator_of args @ '' ?'']
      \<and> js_join '' AND '' (b_where (orWhere column args b))
        = js_join '' AND '' (b_where b) @ '' AND OR '' @ column @ '' '' @ operator_of args @ '' ?'')
   \<and> (b_where b = [] \<longrightarrow>
      b_where (orWhere column args b) = ['' '' @ column @ '' '' @ operator_of args @ '' ?'']
      \<and> b_where (orWhere column args b) = map (\<lambda>fragment. '' '' @ fragment) (b_where (where_b column args b)))
   \<and> b_whereParams (orWhere column args b) = b_whereParams (where_b column args b)"
  by (simp add: orWhere_def where_b_def Let_def js_join_snoc)

text \<open>
  C6. The claim fails on the code where a predicate precedes \<open>orWhere\<close>. The search
  of the examples, \<open>table('users').where('name', 'LIKE', p).orWhere('email', 'LIKE', p)\<close>,
  compiles to a WHERE clause that reads \<open>name LIKE ? AND OR email LIKE ?\<close>: the OR
  fragment is joined with \<open>AND\<close>, the keyword \<open>OR\<close> follows \<open>AND\<close> directly, and the
  text is no disjunction of the two predicates. With no earlier fragment the
  keyword is left out and the text is that of the plain predicate after one
  blank; no call fails.
\<close>

theorem orWhere_after_where:
  "sql (toSQL (orWhere ''email'' (Args3 ''LIKE'' (JStr ''%a%''))
         (where_b ''name'' (Args3 ''LIKE'' (JStr ''%a%'')) (table ''users'' reset))))
     = ''SELECT * FROM users WHERE name LIKE ? AND OR email LIKE ?''
   \<and> params (toSQL (orWhere ''email'' (Args3 ''LIKE'' (JStr ''%a%''))
         (where_b ''name'' (Args3 ''LIKE'' (JStr ''%a%'')) (table ''users'' reset))))
     = [JStr ''%a%'', JStr ''%a%'']
   \<and> sql (toSQL (orWhere ''email'' (Args3 ''LIKE'' (JStr ''%a%'')) (table ''users'' reset)))
     = ''SELECT * FROM users WHERE  email LIKE ?''
   \<and> sql (toSQL (where_b ''email'' (Args3 ''LIKE'' (JStr ''%a%'')) (table ''users'' reset)))
     = ''SELECT * FROM users WHERE email LIKE ?''"
  by (simp add: orWhere_def where_b_def table_def reset_def toSQL_def)

section \<open>A failing onError hook\<close>

lemma createPool_result:
  "createPool s = (Inr (), if pool (self s) then s
       else s\<lparr> self := (self s)\<lparr> pool := True \<rparr>, emitted := emitted s @ [PoolCreated] \<rparr>)"
  by (simp add: createPool_def andThen_def when_p_def ret_def)

lemma lookup_frame:
  assumes "(if c then getFromCache rt key else ret None) s = (r, s0)"
  shows "pool (self s0) = pool (self s) \<and> connection (self s0) = connection (self s)
       \<and> emitted s0 = emitted s \<and> world s0 = world s \<and> hooks (self s0) = hooks (self s)"
  using assms
  by (auto simp: getFromCache_def andThen_def ret_def cache_delete_def
        split: if_splits option.splits)

text \<open>
  C5 (as amended). Take any call of \<open>query\<close> that reaches the execution of its
  statement: the cache lookup, when there is one, returns nothing (no entry, or an
  expired entry that it deletes), and the \<open>beforeQuery\<close> hooks succeed; a helper
  with neither pool nor connection creates its pool first. Let the execution fail
  with \<open>e\<close>. If an \<open>onError\<close> hook then fails with \<open>e2\<close>, the caller of \<open>query\<close>
  receives \<open>e2\<close> itself, not \<open>e\<close> and no wrapping of it, and no query-error signal
  is emitted: the signals are those before the call, and the pool-created signal
  when the call created the pool. If the \<open>onError\<close> hooks succeed, the caller
  receives the error \<open>Query failed:\<close> followed by the message of \<open>e\<close>, after a
  query-error signal.
\<close>

theorem onError_failure_propagates:
  assumes "(if cacheEnabled (self s) \<and> opt_cache options \<noteq> Some False
            then getFromCache rt (getCacheKey rt text ps) else ret None) s = (Inr None, s0)"
    and "runHooks ''beforeQuery'' (QueryData text ps (date_now rt (ext (world s)))) s0 = (Inr (), sa)"
    and "execute rt text ps
           (snd (when_p (\<not> (pool (self sa) \<or> connection (self sa) \<noteq> None)) createPool sa))
         = (Inl e, sb)"
  shows "(runHooks ''onError'' (ErrorData text ps (date_now rt (ext (world s))) e) sb = (Inl e2, sc) \<longrightarrow>
            query rt text ps options s = (Inl e2, sc)
          \<and> emitted sc = emitted s
               @ (if pool (self s) \<or> connection (self s) \<noteq> None then [] else [PoolCreated]))
       \<and> (runHooks ''onError'' (ErrorData text ps (date_now rt (ext (world s))) e) sb = (Inr (), sc) \<longrightarrow>
            query rt text ps options s
              = (Inl (Error (''Query failed: '' @ message e)),
                 sc\<lparr> emitted := emitted s
                       @ (if pool (self s) \<or> connection (self s) \<noteq> None then [] else [PoolCreated])
                       @ [QueryError text ps (message e)] \<rparr>))"
proof -
  let ?t = "date_now rt (ext (world s))"
  let ?c = "pool (self s) \<or> connection (self s) \<noteq> None"
  let ?sp = "snd (when_p (\<not> (pool (self sa) \<or> connection (self sa) \<noteq> None)) createPool sa)"
  from lookup_frame[OF assms(1)] have f0: "pool (self s0) = pool (self s)"
    "connection (self s0) = connection (self s)" "emitted s0 = emitted s" by simp_all
  from assms(2) have fa: "self sa = self s0" "emitted sa = emitted s0"
    by (auto dest: runHooks_frame)
  have c: "(pool (self sa) \<or> connection (self sa) \<noteq> None) = ?c"
    using fa f0 by simp
  have p: "when_p (\<not> (pool (self sa) \<or> connection (self sa) \<noteq> None)) createPool sa = (Inr (), ?sp)"
    by (cases "pool (self sa) \<or> connection (self sa) \<noteq> None")
       (simp_all add: createPool_result)
  have ep: "emitted ?sp = emitted s @ (if ?c then [] else [PoolCreated])"
    using fa f0 c by (cases ?c) (auto simp: createPool_result)
  from assms(3) have fb: "emitted sb = emitted ?sp"
    by (auto dest: execute_frame)
  have u: "query_uncached rt text ps options ?t s0 = (Inl e, sb)"
    unfolding query_uncached_def
    using assms(2) p assms(3) by simp
  have q: "query rt text ps options s = query_catch text ps ?t e sb"
    using assms(1) u by (simp add: query_def try_catch_def)
  have 1: "query rt text ps options s = (Inl e2, sc)
          \<and> emitted sc = emitted s @ (if ?c then [] else [PoolCreated])"
    if "runHooks ''onError'' (ErrorData text ps ?t e) sb = (Inl e2, sc)"
    using that q fb ep runHooks_frame[OF that] by (simp add: query_catch_def)
  have 2: "query rt text ps options s
              = (Inl (Error (''Query failed: '' @ message e)),
                 sc\<lparr> emitted := emitted s @ (if ?c then [] else [PoolCreated])
                       @ [QueryError text ps (message e)] \<rparr>)"
    if "runHooks ''onError'' (ErrorData text ps ?t e) sb = (Inr (), sc)"
    using that q fb ep runHooks_frame[OF that] by (simp add: query_catch_def throw_def)
  from 1 2 show ?thesis by blast
qed


text \<open>
  The claim as stated fails: the execution fails with \<open>ER_PARSE_ERROR\<close>, the
  \<open>onError\<close> callback rejects with \<open>hook failed\<close>, and \<open>query\<close> rejects with
  \<open>hook failed\<close>, which carries nothing of the original error.
\<close>

theorem onError_failure_propagates_counterexample:
  "query demo_rt ''SELECT broken'' [] no_options demo_state_onError
     = (Inl (Error ''hook failed''),
        demo_state_onError\<lparr> world := \<lparr> heap = [], ext = [''execute SELECT broken''] \<rparr> \<rparr>)
   \<and> execute demo_rt ''SELECT broken'' [] demo_state_onError
     = (Inl (Error ''ER_PARSE_ERROR''),
        demo_state_onError\<lparr> world := \<lparr> heap = [], ext = [''execute SELECT broken''] \<rparr> \<rparr>)
   \<and> Error ''hook failed'' \<noteq> Error ''Query failed: ER_PARSE_ERROR''
   \<and> emitted demo_state_onError = [PoolCreated]"
  by (simp add: run_defs demo_defs demo_state_onError_def failing_hook_def)

text \<open>
  The first query of a helper that has neither pool nor connection yet, with an
  expired entry under the statement's key.
\<close>

theorem onError_failure_propagates_witness:
  "cacheEnabled (self demo_state_fresh_onError) \<and> opt_cache no_options \<noteq> Some False
   \<and> cache (self demo_state_fresh_onError) (getCacheKey demo_rt ''SELECT broken'' [])
       = Some \<lparr> entry_data = Rows [], expiry = 0 \<rparr>
   \<and> fst (getFromCache demo_rt (getCacheKey demo_rt ''SELECT broken'' []) demo_state_fresh_onError)
       = Inr None
   \<and> \<not> pool (self demo_state_fresh_onError) \<and> connection (self demo_state_fresh_onError) = None
   \<and> fst (query demo_rt ''SELECT broken'' [] no_options demo_state_fresh_onError)
       = Inl (Error ''hook failed'')
   \<and> emitted (snd (query demo_rt ''SELECT broken'' [] no_options demo_state_fresh_onError))
       = [PoolCreated]
   \<and> ext (world (snd (query demo_rt ''SELECT broken'' [] no_options demo_state_fresh_onError)))
       = [''execute SELECT broken'']"
proof -
  let ?S = demo_state_fresh_onError
  let ?k = "getCacheKey demo_rt ''SELECT broken'' []"
  let ?t = "date_now demo_rt (ext (world ?S))"
  let ?L = "(if cacheEnabled (self ?S) \<and> opt_cache no_options \<noteq> Some False
            then getFromCache demo_rt ?k else ret None) ?S"
  let ?s0 = "cache_delete ?k ?S"
  let ?sp = "snd (when_p (\<not> (pool (self ?s0) \<or> connection (self ?s0) \<noteq> None)) createPool ?s0)"
  let ?sb = "?s0\<lparr> self := (self ?s0)\<lparr> pool := True \<rparr>, emitted := [PoolCreated],
                 world := \<lparr> heap = [], ext = [''execute SELECT broken''] \<rparr> \<rparr>"
  have en: "cacheEnabled (self ?S)" "opt_cache no_options \<noteq> Some False"
    by (simp_all add: demo_state_fresh_onError_def demo_defs)
  have k: "?k = ''SELECT broken:[]''"
    by (simp add: getCacheKey_def demo_rt_def)
  have c: "cache (self ?S) ?k = Some \<lparr> entry_data = Rows [], expiry = 0 \<rparr>"
    unfolding k by (simp add: demo_state_fresh_onError_def)
  have t: "?t = 0"
    by (simp add: demo_state_fresh_onError_def demo_rt_def)
  have g: "getFromCache demo_rt ?k ?S = (Inr None, ?s0)"
    by (rule getFromCache_expired[OF c]) (simp add: t)
  then have l: "?L = (Inr None, ?s0)" using en by simp
  have np: "\<not> pool (self ?S)" "connection (self ?S) = None"
    by (simp_all add: demo_state_fresh_onError_def new_helper_def)
  have b: "runHooks ''beforeQuery'' (QueryData ''SELECT broken'' [] ?t) ?s0 = (Inr (), ?s0)"
    by (simp add: runHooks_def hooks_lookup_def andThen_def ret_def cache_delete_def
          demo_state_fresh_onError_def new_helper_def)
  have sp: "?sp = ?s0\<lparr> self := (self ?s0)\<lparr> pool := True \<rparr>, emitted := [PoolCreated] \<rparr>"
    by (simp add: createPool_result cache_delete_def demo_state_fresh_onError_def new_helper_def)
  have x: "execute demo_rt ''SELECT broken'' [] ?sp = (Inl (Error ''ER_PARSE_ERROR''), ?sb)"
    unfolding sp
    by (simp add: execute_def andThen_def driver_def cache_delete_def demo_state_fresh_onError_def
          demo_rt_def demo_execute_def)
  have h: "runHooks ''onError'' (ErrorData ''SELECT broken'' [] ?t (Error ''ER_PARSE_ERROR'')) ?sb
         = (Inl (Error ''hook failed''), ?sb)"
    by (simp add: runHooks_def hooks_lookup_def andThen_def callback_def cache_delete_def
          demo_state_fresh_onError_def new_helper_def failing_hook_def)
  from onError_failure_propagates[OF l b x, of "Error ''hook failed''" ?sb] h
  have q: "query demo_rt ''SELECT broken'' [] no_options ?S = (Inl (Error ''hook failed''), ?sb)"
    and e: "emitted ?sb = emitted ?S @ (if pool (self ?S) \<or> connection (self ?S) \<noteq> None then [] else [PoolCreated])"
    by blast+
  have 1: "fst (query demo_rt ''SELECT broken'' [] no_options ?S) = Inl (Error ''hook failed'')"
    unfolding q by simp
  have 2: "emitted (snd (query demo_rt ''SELECT broken'' [] no_options ?S)) = [PoolCreated]"
    unfolding q by simp
  have 3: "ext (world (snd (query demo_rt ''SELECT broken'' [] no_options ?S))) = [''execute SELECT broken'']"
    unfolding q by simp
  have 4: "fst (getFromCache demo_rt ?k ?S) = Inr None"
    unfolding g by simp
  from en c 4 np 1 2 3 show ?thesis by (intro conjI)
qed

section \<open>The cache round trip\<close>

lemma setCache_result:
  "setCache rt key d ttl s =
     (Inr (), s\<lparr> self := (self s)\<lparr> cache := (cache (self s))
         (key := Some \<lparr> entry_data = d,
                         expiry = date_now rt (ext (world s))
                            + (case ttl of None \<Rightarrow> cacheTTL (self s) | Some x \<Rightarrow> x) \<rparr>) \<rparr> \<rparr>)"
  by (simp add: setCache_def andThen_def)

lemma query_uncached_entry:
  assumes "query_uncached rt text ps options timestamp s = (Inr rows, s1)"
    "cacheEnabled (self s)" "opt_cache options \<noteq> Some False"
  shows "cache (self s1) (getCacheKey rt text ps)
       = Some \<lparr> entry_data = rows,
                 expiry = date_now rt (ext (world s1))
                    + (case opt_cacheTTL options of None \<Rightarrow> cacheTTL (self s) | Some x \<Rightarrow> x) \<rparr>"
proof -
  from assms(1) show ?thesis
    unfolding query_uncached_def
    apply (elim andThen_InrE)
    apply (simp add: ret_def)
    apply (drule runHooks_frame)+
    apply (drule execute_frame)
    apply (auto simp: when_p_def createPool_def andThen_def ret_def assms(2,3) setCache_result
             split: if_splits option.splits)
    done
qed


lemma fresh_lookup:
  assumes "cacheEnabled (self s)" "opt_cache options \<noteq> Some False"
    and "case cache (self s) (getCacheKey rt text ps) of None \<Rightarrow> True
         | Some c \<Rightarrow> expiry c \<le> date_now rt (ext (world s))"
  shows "query rt text ps options s =
     try_catch (query_uncached rt text ps options (date_now rt (ext (world s))))
               (query_catch text ps (date_now rt (ext (world s))))
       (s\<lparr> self := (self s)\<lparr> cache := (cache (self s))(getCacheKey rt text ps := None) \<rparr> \<rparr>)"
proof (cases "cache (self s) (getCacheKey rt text ps)")
  case None
  then have "(cache (self s))(getCacheKey rt text ps := None) = cache (self s)"
    by (simp add: fun_upd_idem)
  then have "s\<lparr> self := (self s)\<lparr> cache := (cache (self s))(getCacheKey rt text ps := None) \<rparr> \<rparr> = s"
    by simp
  with query_miss[of s rt "text" ps options] None show ?thesis by simp
next
  case (Some c)
  let ?s = "cache_delete (getCacheKey rt text ps) s"
  from Some assms(3) have x: "expiry c \<le> date_now rt (ext (world s))" by simp
  have "query rt text ps options s = query rt text ps options ?s"
    by (rule query_expired[OF assms(1,2) Some x])
  also have "\<dots> = try_catch (query_uncached rt text ps options (date_now rt (ext (world ?s))))
               (query_catch text ps (date_now rt (ext (world ?s)))) ?s"
    by (rule query_miss) (simp add: cache_delete_def)
  finally show ?thesis by (simp add: cache_delete_def)
qed

text \<open>
  C3. With caching enabled and not disabled for either call, let a first call of a
  statement find no live entry under the statement's key and return \<open>rows\<close>. It emits
  no cache-hit signal, and it leaves under the key the entry with \<open>rows\<close> whose expiry
  is the time of storing, which is the clock as the call ends, plus the TTL: the
  call's \<open>cacheTTL\<close> option, or the helper's \<open>cacheTTL\<close> when the call gives none. A
  second call of the same statement, whatever the outside world has become, at a
  time before that expiry returns \<open>rows\<close>, appends exactly one cache-hit signal and
  changes nothing else: no hook and no driver call runs, for any registered
  hooks. At a time at or after that expiry the lookup returns nothing and removes
  the entry, so that the key has no entry; the call then proceeds as a miss,
  through the hooks and the execution, and emits no cache-hit signal.
\<close>

theorem cache_round_trip:
  assumes "cacheEnabled (self s)" "opt_cache options \<noteq> Some False" "opt_cache options' \<noteq> Some False"
    and "case cache (self s) (getCacheKey rt text ps) of None \<Rightarrow> True
         | Some c \<Rightarrow> expiry c \<le> date_now rt (ext (world s))"
    and "query rt text ps options s = (Inr rows, s1)"
    and "e = date_now rt (ext (world s1))
             + (case opt_cacheTTL options of None \<Rightarrow> cacheTTL (self s) | Some ttl \<Rightarrow> ttl)"
  shows "cache (self s1) (getCacheKey rt text ps) = Some \<lparr> entry_data = rows, expiry = e \<rparr>
      \<and> filter is_cache_hit (emitted s1) = filter is_cache_hit (emitted s)
      \<and> (\<forall>w. date_now rt (ext w) < e \<longrightarrow>
            query rt text ps options' (s1\<lparr> world := w \<rparr>)
              = (Inr rows, s1\<lparr> world := w, emitted := emitted s1 @ [CacheHit text ps] \<rparr>))
      \<and> (\<forall>w. e \<le> date_now rt (ext w) \<longrightarrow>
            getFromCache rt (getCacheKey rt text ps) (s1\<lparr> world := w \<rparr>)
              = (Inr None,
                 s1\<lparr> world := w,
                     self := (self s1)\<lparr> cache := (cache (self s1))(getCacheKey rt text ps := None) \<rparr> \<rparr>)
            \<and> cache (self (snd (getFromCache rt (getCacheKey rt text ps) (s1\<lparr> world := w \<rparr>))))
                  (getCacheKey rt text ps) = None
            \<and> query rt text ps options' (s1\<lparr> world := w \<rparr>)
              = try_catch (query_uncached rt text ps options' (date_now rt (ext w)))
                          (query_catch text ps (date_now rt (ext w)))
                  (s1\<lparr> world := w,
                      self := (self s1)\<lparr> cache := (cache (self s1))(getCacheKey rt text ps := None) \<rparr> \<rparr>)
            \<and> filter is_cache_hit (emitted (snd (query rt text ps options' (s1\<lparr> world := w \<rparr>))))
              = filter is_cache_hit (emitted s1))"
proof -
  let ?k = "getCacheKey rt text ps"
  let ?t = "date_now rt (ext (world s))"
  let ?s = "s\<lparr> self := (self s)\<lparr> cache := (cache (self s))(?k := None) \<rparr> \<rparr>"
  have "try_catch (query_uncached rt text ps options ?t) (query_catch text ps ?t) ?s = (Inr rows, s1)"
    using fresh_lookup[OF assms(1,2,4)] assms(5) by simp
  then have u: "query_uncached rt text ps options ?t ?s = (Inr rows, s1)"
    by (auto simp: try_catch_def split: prod.splits sum.splits dest: query_catch_fails)
  have en0: "cacheEnabled (self ?s)" using assms(1) by simp
  have en: "cacheEnabled (self s1)"
    using keepsD[OF cacheEnabled_query_uncached u] en0 by (simp add: same_field_def)
  have entry: "cache (self s1) ?k = Some \<lparr> entry_data = rows, expiry = e \<rparr>"
    using query_uncached_entry[OF u en0 assms(2)] assms(6) by (simp split: option.splits)
  have "keeps (same_signals is_cache_hit) (query_uncached rt text ps options ?t)"
    by (intro quiet_query_uncached) simp_all
  from keepsD[OF this u] have cold: "filter is_cache_hit (emitted s1) = filter is_cache_hit (emitted s)"
    by (simp add: same_signals_def)
  have hit: "query rt text ps options' (s1\<lparr> world := w \<rparr>)
              = (Inr rows, s1\<lparr> world := w, emitted := emitted s1 @ [CacheHit text ps] \<rparr>)"
    if "date_now rt (ext w) < e" for w
    using query_hit[of "s1\<lparr> world := w \<rparr>" options' rt "text" ps "\<lparr> entry_data = rows, expiry = e \<rparr>"]
      en entry assms(3) that by simp
  have late: "getFromCache rt ?k (s1\<lparr> world := w \<rparr>)
              = (Inr None, s1\<lparr> world := w, self := (self s1)\<lparr> cache := (cache (self s1))(?k := None) \<rparr> \<rparr>)
            \<and> cache (self (snd (getFromCache rt ?k (s1\<lparr> world := w \<rparr>)))) ?k = None
            \<and> query rt text ps options' (s1\<lparr> world := w \<rparr>)
              = try_catch (query_uncached rt text ps options' (date_now rt (ext w)))
                          (query_catch text ps (date_now rt (ext w)))
                  (s1\<lparr> world := w, self := (self s1)\<lparr> cache := (cache (self s1))(?k := None) \<rparr> \<rparr>)
            \<and> filter is_cache_hit (emitted (snd (query rt text ps options' (s1\<lparr> world := w \<rparr>))))
              = filter is_cache_hit (emitted s1)"
    if "e \<le> date_now rt (ext w)" for w
  proof -
    let ?s1 = "s1\<lparr> world := w \<rparr>"
    let ?s2 = "s1\<lparr> world := w, self := (self s1)\<lparr> cache := (cache (self s1))(?k := None) \<rparr> \<rparr>"
    have c: "cache (self ?s1) ?k = Some \<lparr> entry_data = rows, expiry = e \<rparr>" using entry by simp
    have x: "expiry \<lparr> entry_data = rows, expiry = e \<rparr> \<le> date_now rt (ext (world ?s1))" using that by simp
    have 1: "getFromCache rt ?k ?s1 = (Inr None, ?s2)"
      using getFromCache_expired[OF c x] by (simp add: cache_delete_def)
    have 2: "cache (self (snd (getFromCache rt ?k ?s1))) ?k = None"
      unfolding 1 by simp
    have f: "case cache (self ?s1) ?k of None \<Rightarrow> True
         | Some c \<Rightarrow> expiry c \<le> date_now rt (ext (world ?s1))"
      using c x by simp
    have en': "cacheEnabled (self ?s1)" using en by simp
    have 3: "query rt text ps options' ?s1
        = try_catch (query_uncached rt text ps options' (date_now rt (ext w)))
                    (query_catch text ps (date_now rt (ext w))) ?s2"
      using fresh_lookup[OF en' assms(3) f] by simp
    have "keeps (same_signals is_cache_hit)
       (try_catch (query_uncached rt text ps options' (date_now rt (ext w)))
                  (query_catch text ps (date_now rt (ext w))))"
      by (intro quiet_steps quiet_query_uncached quiet_query_catch) simp_all
    then have 4: "filter is_cache_hit (emitted (snd (query rt text ps options' ?s1)))
        = filter is_cache_hit (emitted s1)"
      unfolding 3 by (simp add: keeps_def same_signals_def)
    from 1 2 3 4 show ?thesis by (intro conjI)
  qed
  show ?thesis
    by (intro conjI allI impI entry cold hit late[THEN conjunct1]
        late[THEN conjunct2, THEN conjunct1] late[THEN conjunct2, THEN conjunct2, THEN conjunct1]
        late[THEN conjunct2, THEN conjunct2, THEN conjunct2]; assumption)
qed


text \<open>
  The helper of the examples has a TTL of \<open>5\<close>. Its first query stores at time \<open>1\<close>;
  a second query at time \<open>5\<close> hits, and at time \<open>6\<close> the lookup removes the entry
  and the query emits no cache-hit signal.
\<close>

theorem cache_round_trip_witness:
  "cacheEnabled (self demo_state) \<and> opt_cache no_options \<noteq> Some False
   \<and> cache (self demo_state) (getCacheKey demo_rt ''SELECT 1'' []) = None
   \<and> fst (query demo_rt ''SELECT 1'' [] no_options demo_state) = Inr (Rows [[(''id'', JNum 1)]])
   \<and> cacheTTL (self demo_state) = 5
   \<and> date_now demo_rt (ext (world (snd (query demo_rt ''SELECT 1'' [] no_options demo_state)))) = 1
   \<and> cache (self (snd (query demo_rt ''SELECT 1'' [] no_options demo_state)))
          (getCacheKey demo_rt ''SELECT 1'' [])
       = Some \<lparr> entry_data = Rows [[(''id'', JNum 1)]], expiry = 6 \<rparr>
   \<and> emitted (snd (query demo_rt ''SELECT 1'' [] no_options demo_state))
        = [PoolCreated, QueryExecuted ''SELECT 1'' [] 1 (JNum 1)]
   \<and> query demo_rt ''SELECT 1'' [] no_options
        ((snd (query demo_rt ''SELECT 1'' [] no_options demo_state))
           \<lparr> world := \<lparr> heap = [], ext = replicate 5 ''tick'' \<rparr> \<rparr>)
       = (Inr (Rows [[(''id'', JNum 1)]]),
          (snd (query demo_rt ''SELECT 1'' [] no_options demo_state))
           \<lparr> world := \<lparr> heap = [], ext = replicate 5 ''tick'' \<rparr>,
             emitted := [PoolCreated, QueryExecuted ''SELECT 1'' [] 1 (JNum 1), CacheHit ''SELECT 1'' []] \<rparr>)
   \<and> cache (self (snd (getFromCache demo_rt (getCacheKey demo_rt ''SELECT 1'' [])
        ((snd (query demo_rt ''SELECT 1'' [] no_options demo_state))
           \<lparr> world := \<lparr> heap = [], ext = replicate 6 ''tick'' \<rparr> \<rparr>))))
          (getCacheKey demo_rt ''SELECT 1'' []) = None
   \<and> filter is_cache_hit (emitted (snd (query demo_rt ''SELECT 1'' [] no_options
        ((snd (query demo_rt ''SELECT 1'' [] no_options demo_state))
           \<lparr> world := \<lparr> heap = [], ext = replicate 6 ''tick'' \<rparr> \<rparr>)))) = []"
proof -
  let ?rows = "Rows [[(''id'', JNum 1)]]"
  let ?k = "getCacheKey demo_rt ''SELECT 1'' []"
  let ?s1 = "snd (query demo_rt ''SELECT 1'' [] no_options demo_state)"
  have a: "cacheEnabled (self demo_state)" by (simp add: demo_defs)
  have b: "opt_cache no_options \<noteq> Some False" by (simp add: no_options_def)
  have n: "cache (self demo_state) ?k = None" by (simp add: demo_defs)
  then have n': "case cache (self demo_state) ?k of None \<Rightarrow> True
         | Some c \<Rightarrow> expiry c \<le> date_now demo_rt (ext (world demo_state))" by simp
  have q: "query demo_rt ''SELECT 1'' [] no_options demo_state = (Inr ?rows, ?s1)"
    by (simp add: demo_first_query)
  have ttl: "cacheTTL (self demo_state) = 5" by (simp add: demo_defs)
  have t1: "date_now demo_rt (ext (world ?s1)) = 1"
    unfolding demo_first_query by (simp add: date_now_demo)
  have e: "6 = date_now demo_rt (ext (world ?s1))
             + (case opt_cacheTTL no_options of None \<Rightarrow> cacheTTL (self demo_state) | Some ttl \<Rightarrow> ttl)"
    unfolding t1 ttl by (simp add: no_options_def)
  note T = cache_round_trip[OF a b b n' q e]
  from T have entry: "cache (self ?s1) ?k = Some \<lparr> entry_data = ?rows, expiry = 6 \<rparr>"
    by (rule conjunct1)
  from T have hit: "\<And>w. date_now demo_rt (ext w) < 6 \<Longrightarrow>
            query demo_rt ''SELECT 1'' [] no_options (?s1\<lparr> world := w \<rparr>)
              = (Inr ?rows, ?s1\<lparr> world := w, emitted := emitted ?s1 @ [CacheHit ''SELECT 1'' []] \<rparr>)"
    and gone: "\<And>w. 6 \<le> date_now demo_rt (ext w) \<Longrightarrow>
            cache (self (snd (getFromCache demo_rt ?k (?s1\<lparr> world := w \<rparr>)))) ?k = None"
    and late: "\<And>w. 6 \<le> date_now demo_rt (ext w) \<Longrightarrow>
            filter is_cache_hit (emitted (snd (query demo_rt ''SELECT 1'' [] no_options (?s1\<lparr> world := w \<rparr>))))
              = filter is_cache_hit (emitted ?s1)"
    by blast+
  have em: "emitted ?s1 = [PoolCreated, QueryExecuted ''SELECT 1'' [] 1 (JNum 1)]"
    by (simp add: demo_first_query)
  have 1: "query demo_rt ''SELECT 1'' [] no_options
        (?s1\<lparr> world := \<lparr> heap = [], ext = replicate 5 ''tick'' \<rparr> \<rparr>)
       = (Inr ?rows, ?s1\<lparr> world := \<lparr> heap = [], ext = replicate 5 ''tick'' \<rparr>,
             emitted := [PoolCreated, QueryExecuted ''SELECT 1'' [] 1 (JNum 1), CacheHit ''SELECT 1'' []] \<rparr>)"
    using hit[of "\<lparr> heap = [], ext = replicate 5 ''tick'' \<rparr>"] em
    by (simp add: date_now_demo)
  have 2: "cache (self (snd (getFromCache demo_rt ?k
        (?s1\<lparr> world := \<lparr> heap = [], ext = replicate 6 ''tick'' \<rparr> \<rparr>)))) ?k = None"
    using gone[of "\<lparr> heap = [], ext = replicate 6 ''tick'' \<rparr>"]
    by (simp add: date_now_demo)
  have 3: "filter is_cache_hit (emitted (snd (query demo_rt ''SELECT 1'' [] no_options
        (?s1\<lparr> world := \<lparr> heap = [], ext = replicate 6 ''tick'' \<rparr> \<rparr>)))) = []"
    using late[of "\<lparr> heap = [], ext = replicate 6 ''tick'' \<rparr>"] em
    by (simp add: date_now_demo)
  have f: "fst (query demo_rt ''SELECT 1'' [] no_options demo_state) = Inr ?rows"
    by (simp add: demo_first_query)
  from a b n f ttl t1 entry em 1 2 3 show ?thesis by (intro conjI)
qed

end
